theory Spec2Isabelle
  imports Complex_Main
begin

section \<open>The PDDL workspace (PddlWorkspace.ts)\<close>

subsection \<open>JavaScript \<open>Map\<close>: keys in insertion order\<close>

text \<open>
  A JavaScript \<open>Map\<close> iterates in insertion order: \<open>set\<close> on a key that is present keeps
  the key's position, \<open>set\<close> on a new key appends it, \<open>delete\<close> removes the entry. The
  order decides what \<open>Array.from(files.values()).find(...)\<close> returns, so a map is an
  association list here.
\<close>

type_synonym ('k, 'v) Map = "('k \<times> 'v) list"

primrec Map_set :: "'k \<Rightarrow> 'v \<Rightarrow> ('k, 'v) Map \<Rightarrow> ('k, 'v) Map" where
  "Map_set k v [] = [(k, v)]"
| "Map_set k v (p # ps) = (if fst p = k then (k, v) # ps else p # Map_set k v ps)"

definition Map_delete :: "'k \<Rightarrow> ('k, 'v) Map \<Rightarrow> ('k, 'v) Map" where
  "Map_delete k m = filter (\<lambda>p. fst p \<noteq> k) m"

definition Map_get :: "('k, 'v) Map \<Rightarrow> 'k \<Rightarrow> 'v option" where
  "Map_get m k = map_of m k"

definition Map_has :: "('k, 'v) Map \<Rightarrow> 'k \<Rightarrow> bool" where
  "Map_has m k = (map_of m k \<noteq> None)"

definition Map_values :: "('k, 'v) Map \<Rightarrow> 'v list" where
  "Map_values m = map snd m"

text \<open>Mutating the object stored under a key (the key stays where it is).\<close>

primrec Map_modify :: "'k \<Rightarrow> ('v \<Rightarrow> 'v) \<Rightarrow> ('k, 'v) Map \<Rightarrow> ('k, 'v) Map" where
  "Map_modify k f [] = []"
| "Map_modify k f (p # ps) = (if fst p = k then (k, f (snd p)) # ps else p # Map_modify k f ps)"

subsection \<open>File infos\<close>

datatype PddlLanguage = PDDL | PLAN | HAPPENINGS

text \<open>
  Modelled from the spec: \<open>FileStatus\<close> (FileInfo.ts is not among the sources); the
  data model gives a file the status Dirty or Parsed.
\<close>

datatype FileStatus = Dirty | Parsed

text \<open>
  The subclasses of \<open>FileInfo\<close> with the properties the workspace reads. A name is
  \<open>None\<close> where JavaScript has \<open>null\<close> or \<open>undefined\<close>. The version is the edit counter
  that the caller supplies, an integer.
\<close>

datatype FileKind =
    DomainInfo "string option"
  | ProblemInfo "string option" "string option"
  | PlanInfo "string option" "string option"
  | HappeningsInfo "string option" "string option"
  | UnknownFileInfo

record FileInfo =
  fileUri :: string
  fileVersion :: int
  fileStatus :: FileStatus
  fileText :: string
  kind :: FileKind

fun isDomain :: "FileInfo \<Rightarrow> bool" where
  "isDomain f = (case kind f of DomainInfo _ \<Rightarrow> True | _ \<Rightarrow> False)"

fun isProblem :: "FileInfo \<Rightarrow> bool" where
  "isProblem f = (case kind f of ProblemInfo _ _ \<Rightarrow> True | _ \<Rightarrow> False)"

fun isPlan :: "FileInfo \<Rightarrow> bool" where
  "isPlan f = (case kind f of PlanInfo _ _ \<Rightarrow> True | _ \<Rightarrow> False)"

fun isHappenings :: "FileInfo \<Rightarrow> bool" where
  "isHappenings f = (case kind f of HappeningsInfo _ _ \<Rightarrow> True | _ \<Rightarrow> False)"

text \<open>
  Property reads after a cast: \<open>(<ProblemInfo>f).name\<close>. A property the object does
  not have reads as \<open>undefined\<close>.
\<close>

fun name :: "FileInfo \<Rightarrow> string option" where
  "name f = (case kind f of DomainInfo n \<Rightarrow> n | ProblemInfo n _ \<Rightarrow> n | _ \<Rightarrow> None)"

fun domainName :: "FileInfo \<Rightarrow> string option" where
  "domainName f = (case kind f of ProblemInfo _ d \<Rightarrow> d | PlanInfo _ d \<Rightarrow> d
     | HappeningsInfo _ d \<Rightarrow> d | _ \<Rightarrow> None)"

fun problemName :: "FileInfo \<Rightarrow> string option" where
  "problemName f = (case kind f of PlanInfo p _ \<Rightarrow> p | HappeningsInfo p _ \<Rightarrow> p | _ \<Rightarrow> None)"

text \<open>
  Modelled from the spec: \<open>FileInfo.getLanguage\<close> (FileInfo.ts is not among the sources).
  Domain, problem and unknown files carry the generic tag, plans and happenings their own.
\<close>

fun getLanguage :: "FileInfo \<Rightarrow> PddlLanguage" where
  "getLanguage f = (case kind f of PlanInfo _ _ \<Rightarrow> PLAN | HappeningsInfo _ _ \<Rightarrow> HAPPENINGS
     | _ \<Rightarrow> PDDL)"

text \<open>
  Modelled from the spec: \<open>FileInfo.update\<close> (FileInfo.ts is not among the sources). A text
  update with a strictly greater version sets the file back to Dirty; an update with a
  version that is not greater is a no-op unless \<open>force\<close> is set. The result tells whether
  the file was updated, so that the caller schedules the re-parse.
\<close>

definition FileInfo_update :: "FileInfo \<Rightarrow> int \<Rightarrow> string \<Rightarrow> bool \<Rightarrow> FileInfo \<times> bool" where
  "FileInfo_update f ver txt force =
     (let isNewerVersion = ver > fileVersion f in
      if isNewerVersion \<or> force
      then (f\<lparr>fileStatus := Dirty, fileVersion := ver, fileText := txt\<rparr>, True)
      else (f, False))"

subsection \<open>String helpers\<close>

text \<open>
  \<open>String.prototype.toLowerCase\<close> on the ASCII letters; other characters are kept.
\<close>

definition toLowerChar :: "char \<Rightarrow> char" where
  "toLowerChar c =
     (let n = (of_char c :: nat) in
      if 65 \<le> n \<and> n \<le> 90 then char_of (n + 32) else c)"

definition toLowerCase :: "string \<Rightarrow> string" where
  "toLowerCase s = map toLowerChar s"

fun lowerCaseEquals :: "string option \<Rightarrow> string option \<Rightarrow> bool" where
  "lowerCaseEquals None second = (second = None)"
| "lowerCaseEquals (Some a) None = False"
| "lowerCaseEquals (Some a) (Some b) = (toLowerCase a = toLowerCase b)"

subsection \<open>What the workspace takes from outside\<close>

text \<open>
  The workspace calls code that is not among the sources: \<open>URI.parse(uri).scheme\<close> of the
  vscode-uri library, \<open>dirname(Util.fsPath(uri))\<close>, and the \<open>Parser\<close> that classifies and
  parses a text. They are parameters of the model. A parser function receives the URI,
  the version and the text, and returns the properties of the file info it builds:
  \<open>tryDomain\<close> the domain name, \<open>tryProblem\<close> the problem name, the domain name and
  the text it stores (the pre-processed one), \<open>parsePlan\<close> and \<open>parseHappenings\<close> the
  problem name and the domain name. The file info a parser builds carries the URI and
  the version it was given (as \<open>PddlProblemParser.parse\<close> and the \<open>UnknownFileInfo\<close> branch of
  \<open>parseFile\<close> do) and starts out Parsed.
\<close>

record Env =
  uriScheme :: "string \<Rightarrow> string"
  fsFolderPath :: "string \<Rightarrow> string"
  tryDomain :: "string \<Rightarrow> int \<Rightarrow> string \<Rightarrow> string option option"
  tryProblem :: "string \<Rightarrow> int \<Rightarrow> string \<Rightarrow> (string option \<times> string option \<times> string) option"
  parsePlan :: "string \<Rightarrow> int \<Rightarrow> string \<Rightarrow> string option \<times> string option"
  parseHappenings :: "string \<Rightarrow> int \<Rightarrow> string \<Rightarrow> string option \<times> string option"

subsection \<open>Folder\<close>

type_synonym Folder = "(string, FileInfo) Map"

definition Folder_hasFile :: "Folder \<Rightarrow> string \<Rightarrow> bool" where
  "Folder_hasFile folder uri = Map_has folder uri"

definition Folder_get :: "Folder \<Rightarrow> string \<Rightarrow> FileInfo option" where
  "Folder_get folder uri = Map_get folder uri"

definition Folder_add :: "Env \<Rightarrow> FileInfo \<Rightarrow> Folder \<Rightarrow> Folder" where
  "Folder_add env fileInfo folder =
     (if uriScheme env (fileUri fileInfo) \<noteq> ''git''
      then Map_set (fileUri fileInfo) fileInfo folder
      else folder)"

definition Folder_remove :: "FileInfo \<Rightarrow> Folder \<Rightarrow> bool \<times> Folder" where
  "Folder_remove fileInfo folder =
     (Map_has folder (fileUri fileInfo), Map_delete (fileUri fileInfo) folder)"

definition getProblemFileWithName :: "Folder \<Rightarrow> string option \<Rightarrow> FileInfo option" where
  "getProblemFileWithName folder pName =
     find (\<lambda>problemInfo. lowerCaseEquals (name problemInfo) pName)
       (filter isProblem (Map_values folder))"

definition getProblemFilesFor :: "Folder \<Rightarrow> FileInfo \<Rightarrow> FileInfo list" where
  "getProblemFilesFor folder domainInfo =
     filter (\<lambda>problemInfo. lowerCaseEquals (domainName problemInfo) (name domainInfo))
       (filter isProblem (Map_values folder))"

definition Folder_getDomainFilesFor :: "Folder \<Rightarrow> FileInfo \<Rightarrow> FileInfo list" where
  "Folder_getDomainFilesFor folder problemInfo =
     filter (\<lambda>domainInfo. lowerCaseEquals (name domainInfo) (domainName problemInfo))
       (filter isDomain (Map_values folder))"

subsection \<open>The workspace state\<close>

datatype EventSymbol = INSERTED | UPDATED | REMOVING

text \<open>
  The fields of \<open>PddlWorkspace\<close>. \<open>parsingTimeout\<close> tells whether a timer is pending;
  \<open>emitted\<close> is the log of the events given to \<open>EventEmitter.emit\<close>, oldest first, each
  with the file info as it was when emitted.
\<close>

record PddlWorkspace =
  folders :: "(string, Folder) Map"
  parsingTimeout :: bool
  lastVersionUpdateEmitted :: "(string, int) Map"
  problemToDomainMap :: "(string, string) Map"
  planToProblemMap :: "(string, string) Map"
  emitted :: "(EventSymbol \<times> FileInfo) list"

definition newWorkspace :: PddlWorkspace where
  "newWorkspace = \<lparr>folders = [], parsingTimeout = False, lastVersionUpdateEmitted = [],
     problemToDomainMap = [], planToProblemMap = [], emitted = []\<rparr>"

definition getFolderPath :: "Env \<Rightarrow> string \<Rightarrow> string" where
  "getFolderPath env documentUri = fsFolderPath env documentUri"

definition upsertFolder :: "PddlWorkspace \<Rightarrow> string \<Rightarrow> PddlWorkspace" where
  "upsertFolder ws folderPath =
     (if \<not> Map_has (folders ws) folderPath
      then ws\<lparr>folders := Map_set folderPath [] (folders ws)\<rparr>
      else ws)"

text \<open>
  A \<open>Folder\<close> is an object held by reference: a method called on a folder taken from
  \<open>this.folders\<close> changes the folder in the map. \<open>emit\<close> records the event; what the
  listeners do with it is outside the workspace.
\<close>

definition inFolder :: "string \<Rightarrow> (Folder \<Rightarrow> Folder) \<Rightarrow> PddlWorkspace \<Rightarrow> PddlWorkspace" where
  "inFolder folderPath f ws = ws\<lparr>folders := Map_modify folderPath f (folders ws)\<rparr>"

definition emit :: "PddlWorkspace \<Rightarrow> EventSymbol \<Rightarrow> FileInfo \<Rightarrow> PddlWorkspace" where
  "emit ws symbol fileInfo = ws\<lparr>emitted := emitted ws @ [(symbol, fileInfo)]\<rparr>"

definition emitIfNew :: "PddlWorkspace \<Rightarrow> EventSymbol \<Rightarrow> FileInfo \<Rightarrow> PddlWorkspace" where
  "emitIfNew ws symbol fileInfo =
     (if symbol = UPDATED then
        (case Map_get (lastVersionUpdateEmitted ws) (fileUri fileInfo) of
           Some lastVersion \<Rightarrow>
             if fileVersion fileInfo \<le> lastVersion then ws
             else emit (ws\<lparr>lastVersionUpdateEmitted :=
                    Map_set (fileUri fileInfo) (fileVersion fileInfo) (lastVersionUpdateEmitted ws)\<rparr>)
                    symbol fileInfo
         | None \<Rightarrow>
             emit (ws\<lparr>lastVersionUpdateEmitted :=
                    Map_set (fileUri fileInfo) (fileVersion fileInfo) (lastVersionUpdateEmitted ws)\<rparr>)
                    symbol fileInfo)
      else emit ws symbol fileInfo)"

subsection \<open>Parsing a file\<close>

text \<open>
  \<open>parseFile\<close>: the generic tag tries the domain parser, then the problem parser, and
  otherwise builds an \<open>UnknownFileInfo\<close> holding the text. \<open>PddlLanguage\<close> has the three
  tags of the external interface, so the branch that throws on an unknown language is
  not reachable.
\<close>

definition parseFile :: "Env \<Rightarrow> string \<Rightarrow> PddlLanguage \<Rightarrow> int \<Rightarrow> string \<Rightarrow> FileInfo" where
  "parseFile env uri language ver txt =
     (case language of
        PDDL \<Rightarrow>
          (case tryDomain env uri ver txt of
             Some n \<Rightarrow> \<lparr>fileUri = uri, fileVersion = ver, fileStatus = Parsed, fileText = txt,
                        kind = DomainInfo n\<rparr>
           | None \<Rightarrow>
              (case tryProblem env uri ver txt of
                 Some (n, d, t) \<Rightarrow> \<lparr>fileUri = uri, fileVersion = ver, fileStatus = Parsed,
                        fileText = t, kind = ProblemInfo n d\<rparr>
               | None \<Rightarrow> \<lparr>fileUri = uri, fileVersion = ver, fileStatus = Parsed, fileText = txt,
                        kind = UnknownFileInfo\<rparr>))
      | PLAN \<Rightarrow>
          (case parsePlan env uri ver txt of
             (p, d) \<Rightarrow> \<lparr>fileUri = uri, fileVersion = ver, fileStatus = Parsed, fileText = txt,
                        kind = PlanInfo p d\<rparr>)
      | HAPPENINGS \<Rightarrow>
          (case parseHappenings env uri ver txt of
             (p, d) \<Rightarrow> \<lparr>fileUri = uri, fileVersion = ver, fileStatus = Parsed, fileText = txt,
                        kind = HappeningsInfo p d\<rparr>))"

subsection \<open>Lookups\<close>

definition getFileInfo :: "Env \<Rightarrow> PddlWorkspace \<Rightarrow> string \<Rightarrow> FileInfo option" where
  "getFileInfo env ws uri =
     (case Map_get (folders ws) (getFolderPath env uri) of
        Some folder \<Rightarrow> Folder_get folder uri
      | None \<Rightarrow> None)"

definition getFolderOf :: "Env \<Rightarrow> PddlWorkspace \<Rightarrow> FileInfo \<Rightarrow> Folder option" where
  "getFolderOf env ws fileInfo = Map_get (folders ws) (getFolderPath env (fileUri fileInfo))"

definition getProblemFiles :: "Env \<Rightarrow> PddlWorkspace \<Rightarrow> FileInfo \<Rightarrow> FileInfo list" where
  "getProblemFiles env ws domainInfo =
     (case Map_get (folders ws) (getFolderPath env (fileUri domainInfo)) of
        Some folder \<Rightarrow> getProblemFilesFor folder domainInfo
      | None \<Rightarrow> [])"

definition getPlanFiles :: "Env \<Rightarrow> PddlWorkspace \<Rightarrow> FileInfo \<Rightarrow> FileInfo list" where
  "getPlanFiles env ws problemInfo =
     (case Map_get (folders ws) (getFolderPath env (fileUri problemInfo)) of
        None \<Rightarrow> []
      | Some folder \<Rightarrow>
          filter (\<lambda>p. lowerCaseEquals (problemName p) (name problemInfo)
                    \<and> lowerCaseEquals (domainName p) (domainName problemInfo))
            (filter isPlan (Map_values folder)))"

definition getHappeningsFiles :: "Env \<Rightarrow> PddlWorkspace \<Rightarrow> FileInfo \<Rightarrow> FileInfo list" where
  "getHappeningsFiles env ws problemInfo =
     (case Map_get (folders ws) (getFolderPath env (fileUri problemInfo)) of
        None \<Rightarrow> []
      | Some folder \<Rightarrow>
          filter (\<lambda>p. lowerCaseEquals (problemName p) (name problemInfo)
                    \<and> lowerCaseEquals (domainName p) (domainName problemInfo))
            (filter isHappenings (Map_values folder)))"

definition getAllFilesIf :: "PddlWorkspace \<Rightarrow> (FileInfo \<Rightarrow> bool) \<Rightarrow> FileInfo list" where
  "getAllFilesIf ws predicate =
     concat (map (\<lambda>folder. filter predicate (Map_values folder)) (Map_values (folders ws)))"

definition getAllFiles :: "PddlWorkspace \<Rightarrow> FileInfo list" where
  "getAllFiles ws = concat (map (\<lambda>folder. Map_values folder) (Map_values (folders ws)))"

subsection \<open>Associations\<close>

definition associateProblemToDomain :: "PddlWorkspace \<Rightarrow> FileInfo \<Rightarrow> FileInfo \<Rightarrow> PddlWorkspace" where
  "associateProblemToDomain ws problemInfo domainInfo =
     ws\<lparr>problemToDomainMap :=
          Map_set (fileUri problemInfo) (fileUri domainInfo) (problemToDomainMap ws)\<rparr>"

definition associatePlanToProblem :: "PddlWorkspace \<Rightarrow> string \<Rightarrow> FileInfo \<Rightarrow> PddlWorkspace" where
  "associatePlanToProblem ws planUri problemFileInfo =
     ws\<lparr>planToProblemMap := Map_set planUri (fileUri problemFileInfo) (planToProblemMap ws)\<rparr>"

definition getDomainFilesFor :: "Env \<Rightarrow> PddlWorkspace \<Rightarrow> FileInfo \<Rightarrow> FileInfo list" where
  "getDomainFilesFor env ws problemFile =
     (if Map_has (problemToDomainMap ws) (fileUri problemFile) then
        (case Map_get (problemToDomainMap ws) (fileUri problemFile) of
           Some domainFileUri \<Rightarrow>
             (case getFileInfo env ws domainFileUri of
                Some associatedDomain \<Rightarrow> [associatedDomain]
              | None \<Rightarrow> [])
         | None \<Rightarrow> [])
      else
        (case Map_get (folders ws) (getFolderPath env (fileUri problemFile)) of
           None \<Rightarrow> []
         | Some folder \<Rightarrow> Folder_getDomainFilesFor folder problemFile))"

definition getDomainFileFor :: "Env \<Rightarrow> PddlWorkspace \<Rightarrow> FileInfo \<Rightarrow> FileInfo option" where
  "getDomainFileFor env ws problemFile =
     (let domainFiles = getDomainFilesFor env ws problemFile in
      if length domainFiles = 1 then Some (domainFiles ! 0) else None)"

definition getProblemFileForPlan :: "Env \<Rightarrow> PddlWorkspace \<Rightarrow> FileInfo \<Rightarrow> FileInfo option" where
  "getProblemFileForPlan env ws planInfo =
     (if Map_has (planToProblemMap ws) (fileUri planInfo) then
        (case Map_get (planToProblemMap ws) (fileUri planInfo) of
           Some problemFileUri \<Rightarrow> getFileInfo env ws problemFileUri
         | None \<Rightarrow> None)
      else
        (case getFolderOf env ws planInfo of
           None \<Rightarrow> None
         | Some folder \<Rightarrow> getProblemFileWithName folder (problemName planInfo)))"

definition getProblemFileForHappenings :: "Env \<Rightarrow> PddlWorkspace \<Rightarrow> FileInfo \<Rightarrow> FileInfo option" where
  "getProblemFileForHappenings env ws happeningsInfo =
     (case getFolderOf env ws happeningsInfo of
        None \<Rightarrow> None
      | Some folder \<Rightarrow> getProblemFileWithName folder (problemName happeningsInfo))"

definition hasExplicitAssociations :: "PddlWorkspace \<Rightarrow> string \<Rightarrow> bool" where
  "hasExplicitAssociations ws documentUri =
     (Map_has (problemToDomainMap ws) documentUri
      \<or> documentUri \<in> set (Map_values (problemToDomainMap ws))
      \<or> Map_has (planToProblemMap ws) documentUri
      \<or> documentUri \<in> set (Map_values (planToProblemMap ws)))"

subsection \<open>Invalidation\<close>

text \<open>
  \<open>invalidateDiagnostics\<close> is given an object that a folder holds (the callers below take
  it from a folder's map), and \<open>setStatus\<close> changes that object where it is stored. The
  status it sets is \<open>FileStatus.Parsed\<close>.
\<close>

definition invalidateDiagnostics :: "Env \<Rightarrow> PddlWorkspace \<Rightarrow> FileInfo \<Rightarrow> PddlWorkspace" where
  "invalidateDiagnostics env ws fileInfo =
     (let ws1 = inFolder (getFolderPath env (fileUri fileInfo))
                  (Map_modify (fileUri fileInfo) (\<lambda>f. f\<lparr>fileStatus := Parsed\<rparr>)) ws
      in emitIfNew ws1 UPDATED (fileInfo\<lparr>fileStatus := Parsed\<rparr>))"

definition markPlansAsDirty :: "Env \<Rightarrow> PddlWorkspace \<Rightarrow> FileInfo \<Rightarrow> PddlWorkspace" where
  "markPlansAsDirty env ws problemInfo =
     (let ws1 = fold (\<lambda>planInfo w. invalidateDiagnostics env w planInfo)
                  (getPlanFiles env ws problemInfo) ws
      in fold (\<lambda>happeningsInfo w. invalidateDiagnostics env w happeningsInfo)
           (getHappeningsFiles env ws1 problemInfo) ws1)"

definition markProblemsAsDirty :: "Env \<Rightarrow> PddlWorkspace \<Rightarrow> FileInfo \<Rightarrow> PddlWorkspace" where
  "markProblemsAsDirty env ws domainInfo =
     fold (\<lambda>problemInfo w.
             markPlansAsDirty env (invalidateDiagnostics env w problemInfo) problemInfo)
       (getProblemFiles env ws domainInfo) ws"

subsection \<open>Upsert, re-parse, removal\<close>

text \<open>
  An \<open>await\<close> is modelled as resolving at once: each operation runs to its end before the
  next one starts.
\<close>

definition scheduleParsing :: "PddlWorkspace \<Rightarrow> PddlWorkspace" where
  "scheduleParsing ws = ws\<lparr>parsingTimeout := True\<rparr>"

definition insertFile ::
  "Env \<Rightarrow> PddlWorkspace \<Rightarrow> string \<Rightarrow> string \<Rightarrow> PddlLanguage \<Rightarrow> int \<Rightarrow> string
     \<Rightarrow> FileInfo \<times> PddlWorkspace" where
  "insertFile env ws folderPath uri language ver txt =
     (let fileInfo = parseFile env uri language ver txt;
          ws1 = inFolder folderPath (Folder_add env fileInfo) ws;
          ws2 = (if isDomain fileInfo then markProblemsAsDirty env ws1 fileInfo
                 else if isProblem fileInfo then markPlansAsDirty env ws1 fileInfo
                 else ws1);
          ws3 = emitIfNew ws2 UPDATED fileInfo;
          ws4 = emitIfNew ws3 INSERTED fileInfo
      in (fileInfo, ws4))"

definition upsertFile ::
  "Env \<Rightarrow> PddlWorkspace \<Rightarrow> string \<Rightarrow> PddlLanguage \<Rightarrow> int \<Rightarrow> string \<Rightarrow> bool
     \<Rightarrow> FileInfo \<times> PddlWorkspace" where
  "upsertFile env ws uri language ver txt force =
     (let folderPath = getFolderPath env uri;
          ws1 = upsertFolder ws folderPath
      in case getFileInfo env ws1 uri of
           Some fileInfo \<Rightarrow>
             (case FileInfo_update fileInfo ver txt force of
                (fileInfo', newer) \<Rightarrow>
                  (let ws2 = inFolder folderPath (Map_modify uri (\<lambda>_. fileInfo')) ws1
                   in (fileInfo', if newer then scheduleParsing ws2 else ws2)))
         | None \<Rightarrow> insertFile env ws1 folderPath uri language ver txt)"

definition reParseFile :: "Env \<Rightarrow> PddlWorkspace \<Rightarrow> FileInfo \<Rightarrow> FileInfo \<times> PddlWorkspace" where
  "reParseFile env ws fileInfo =
     (let folderPath = getFolderPath env (fileUri fileInfo);
          ws1 = upsertFolder ws folderPath;
          ws2 = inFolder folderPath (\<lambda>folder. snd (Folder_remove fileInfo folder)) ws1;
          fileInfo' = parseFile env (fileUri fileInfo) (getLanguage fileInfo)
                        (fileVersion fileInfo) (fileText fileInfo);
          ws3 = inFolder folderPath (Folder_add env fileInfo') ws2
      in (fileInfo', emitIfNew ws3 UPDATED fileInfo'))"

definition upsertAndParseFile ::
  "Env \<Rightarrow> PddlWorkspace \<Rightarrow> string \<Rightarrow> PddlLanguage \<Rightarrow> int \<Rightarrow> string
     \<Rightarrow> FileInfo \<times> PddlWorkspace" where
  "upsertAndParseFile env ws uri language ver txt =
     (case upsertFile env ws uri language ver txt False of
        (fileInfo, ws1) \<Rightarrow>
          if fileStatus fileInfo = Dirty then reParseFile env ws1 fileInfo
          else (fileInfo, ws1))"

text \<open>The timer fires: every file that is Dirty is re-parsed, in the order of the maps.\<close>

definition parseAllDirty :: "Env \<Rightarrow> PddlWorkspace \<Rightarrow> PddlWorkspace" where
  "parseAllDirty env ws =
     (let dirtyFiles = getAllFilesIf ws (\<lambda>fileInfo. fileStatus fileInfo = Dirty)
      in fold (\<lambda>file w. snd (reParseFile env w file)) dirtyFiles (ws\<lparr>parsingTimeout := False\<rparr>))"

definition removeFile :: "Env \<Rightarrow> PddlWorkspace \<Rightarrow> string \<Rightarrow> bool \<Rightarrow> bool \<times> PddlWorkspace" where
  "removeFile env ws documentUri removeAllReferences =
     (if hasExplicitAssociations ws documentUri \<and> \<not> removeAllReferences then (False, ws)
      else
        (let folderPath = getFolderPath env documentUri
         in case Map_get (folders ws) folderPath of
              Some folder \<Rightarrow>
                (case Folder_get folder documentUri of
                   Some documentInfo \<Rightarrow>
                     (let ws1 = emitIfNew ws REMOVING documentInfo
                      in (fst (Folder_remove documentInfo folder),
                          inFolder folderPath (\<lambda>f. snd (Folder_remove documentInfo f)) ws1))
                 | None \<Rightarrow> (False, ws))
            | None \<Rightarrow> (False, ws)))"

subsection \<open>Sequences of operations\<close>

text \<open>
  The public methods that change the workspace, as operations. \<open>InvalidateDiagnostics\<close>
  names the stored file by its URI, since the method changes the object it is given.
\<close>

datatype Operation =
    UpsertFile string PddlLanguage int string bool
  | UpsertAndParseFile string PddlLanguage int string
  | ReParseFile FileInfo
  | ParseAllDirty
  | RemoveFile string bool
  | InvalidateDiagnostics string
  | MarkProblemsAsDirty FileInfo
  | MarkPlansAsDirty FileInfo
  | ScheduleParsing
  | AssociateProblemToDomain FileInfo FileInfo
  | AssociatePlanToProblem string FileInfo

fun step :: "Env \<Rightarrow> Operation \<Rightarrow> PddlWorkspace \<Rightarrow> PddlWorkspace" where
  "step env (UpsertFile uri language ver txt force) ws =
     snd (upsertFile env ws uri language ver txt force)"
| "step env (UpsertAndParseFile uri language ver txt) ws =
     snd (upsertAndParseFile env ws uri language ver txt)"
| "step env (ReParseFile fileInfo) ws = snd (reParseFile env ws fileInfo)"
| "step env ParseAllDirty ws = parseAllDirty env ws"
| "step env (RemoveFile uri removeAllReferences) ws =
     snd (removeFile env ws uri removeAllReferences)"
| "step env (InvalidateDiagnostics uri) ws =
     (case getFileInfo env ws uri of
        Some fileInfo \<Rightarrow> invalidateDiagnostics env ws fileInfo
      | None \<Rightarrow> ws)"
| "step env (MarkProblemsAsDirty domainInfo) ws = markProblemsAsDirty env ws domainInfo"
| "step env (MarkPlansAsDirty problemInfo) ws = markPlansAsDirty env ws problemInfo"
| "step env ScheduleParsing ws = scheduleParsing ws"
| "step env (AssociateProblemToDomain problemInfo domainInfo) ws =
     associateProblemToDomain ws problemInfo domainInfo"
| "step env (AssociatePlanToProblem planUri problemFileInfo) ws =
     associatePlanToProblem ws planUri problemFileInfo"

definition run :: "Env \<Rightarrow> Operation list \<Rightarrow> PddlWorkspace \<Rightarrow> PddlWorkspace" where
  "run env ops ws = fold (step env) ops ws"

text \<open>
  The (URI, version) pairs that an operation brings into the workspace: the version the
  caller supplies with an upsert, and the version of a file info handed to \<open>reParseFile\<close>.
  The other operations work on the files that the workspace holds.
\<close>

fun broughtIn :: "Operation \<Rightarrow> (string \<times> int) list" where
  "broughtIn (UpsertFile uri language ver t force) = [(uri, ver)]"
| "broughtIn (UpsertAndParseFile uri language ver t) = [(uri, ver)]"
| "broughtIn (ReParseFile fileInfo) = [(fileUri fileInfo, fileVersion fileInfo)]"
| "broughtIn operation = []"

subsection \<open>A concrete environment\<close>

text \<open>
  Stand-ins for the outside code, to run the model on concrete files. The scheme of a URI
  is what stands before its first colon; the folder of \<open>file:///w/domain.pddl\<close> is \<open>/w\<close>.
  The parser stand-in reads the names off a text that begins with
  \<open>(define (domain NAME)\<close> or \<open>(define (problem NAME) (:domain NAME)\<close>, and off the
  \<open>;;!domain:\<close> and \<open>;;!problem:\<close> lines that head a plan or a happenings file.
\<close>

definition demoScheme :: "string \<Rightarrow> string" where
  "demoScheme uri = takeWhile (\<lambda>c. c \<noteq> CHR '':'') uri"

definition demoFolderPath :: "string \<Rightarrow> string" where
  "demoFolderPath uri =
     (let afterScheme = drop 1 (dropWhile (\<lambda>c. c \<noteq> CHR '':'') uri);
          path = (if take 2 afterScheme = ''//''
                  then dropWhile (\<lambda>c. c \<noteq> CHR ''/'') (drop 2 afterScheme)
                  else afterScheme)
      in rev (drop 1 (dropWhile (\<lambda>c. c \<noteq> CHR ''/'') (rev path))))"

definition stripPrefix :: "string \<Rightarrow> string \<Rightarrow> string option" where
  "stripPrefix p s = (if take (length p) s = p then Some (drop (length p) s) else None)"

definition upTo :: "char \<Rightarrow> string \<Rightarrow> string" where
  "upTo c s = takeWhile (\<lambda>x. x \<noteq> c) s"

definition demoTryDomain :: "string \<Rightarrow> int \<Rightarrow> string \<Rightarrow> string option option" where
  "demoTryDomain uri ver txt =
     (case stripPrefix ''(define (domain '' txt of
        Some r \<Rightarrow> Some (Some (upTo CHR '')'' r))
      | None \<Rightarrow> None)"

definition demoTryProblem ::
  "string \<Rightarrow> int \<Rightarrow> string \<Rightarrow> (string option \<times> string option \<times> string) option" where
  "demoTryProblem uri ver txt =
     (case stripPrefix ''(define (problem '' txt of
        None \<Rightarrow> None
      | Some r \<Rightarrow>
          (case stripPrefix '') (:domain '' (dropWhile (\<lambda>c. c \<noteq> CHR '')'') r) of
             None \<Rightarrow> None
           | Some r2 \<Rightarrow> Some (Some (upTo CHR '')'' r), Some (upTo CHR '')'' r2), txt)))"

definition demoParsePlan :: "string \<Rightarrow> int \<Rightarrow> string \<Rightarrow> string option \<times> string option" where
  "demoParsePlan uri ver txt =
     (case stripPrefix '';;!domain: '' txt of
        None \<Rightarrow> (Some ''unspecified'', Some ''unspecified'')
      | Some r \<Rightarrow>
          (case stripPrefix '';;!problem: '' (drop 1 (dropWhile (\<lambda>c. c \<noteq> CHR 0x0A) r)) of
             None \<Rightarrow> (Some ''unspecified'', Some (upTo (CHR 0x0A) r))
           | Some r2 \<Rightarrow> (Some (upTo (CHR 0x0A) r2), Some (upTo (CHR 0x0A) r))))"

definition demoEnv :: Env where
  "demoEnv = \<lparr>uriScheme = demoScheme, fsFolderPath = demoFolderPath,
     tryDomain = demoTryDomain, tryProblem = demoTryProblem,
     parsePlan = demoParsePlan, parseHappenings = demoParsePlan\<rparr>"

definition domainText :: string where
  "domainText = ''(define (domain d) (:predicates (p)))''"

definition problemText :: string where
  "problemText = ''(define (problem p1) (:domain D) (:init (p)))''"

definition planText :: string where
  "planText = '';;!domain: d'' @ [CHR 0x0A] @ '';;!problem: P1'' @ [CHR 0x0A] @ ''0.0: (a) [1.0]''"

text \<open>
  A workspace with a problem, a plan and a domain in one folder, and the same workspace
  with the plan explicitly associated to the problem.
\<close>

definition demoOps :: "Operation list" where
  "demoOps =
     [UpsertFile ''file:///w/problem.pddl'' PDDL 1 problemText False,
      UpsertFile ''file:///w/plan.plan'' PLAN 1 planText False,
      UpsertFile ''file:///w/domain.pddl'' PDDL 1 domainText False]"

definition demoWorkspace :: PddlWorkspace where
  "demoWorkspace = run demoEnv demoOps newWorkspace"

definition demoAssociated :: PddlWorkspace where
  "demoAssociated =
     associatePlanToProblem demoWorkspace ''file:///w/plan.plan''
       (parseFile demoEnv ''file:///w/problem.pddl'' PDDL 1 problemText)"

definition demoProblem :: FileInfo where
  "demoProblem = parseFile demoEnv ''file:///w/problem.pddl'' PDDL 1 problemText"

definition demoTwoDomains :: PddlWorkspace where
  "demoTwoDomains =
     run demoEnv (demoOps @ [UpsertFile ''file:///w/domain2.pddl'' PDDL 1 domainText False])
       newWorkspace"

text \<open>
  A second problem and a happenings file join the folder; the plan and the happenings
  file are then both explicitly associated to the second problem, while the problem name
  they carry is that of the first.
\<close>

definition problem2Text :: string where
  "problem2Text = ''(define (problem p2) (:domain d) (:init (p)))''"

definition demoProblem2 :: FileInfo where
  "demoProblem2 = parseFile demoEnv ''file:///w/problem2.pddl'' PDDL 1 problem2Text"

definition demoPlan :: FileInfo where
  "demoPlan = parseFile demoEnv ''file:///w/plan.plan'' PLAN 1 planText"

definition demoHappenings :: FileInfo where
  "demoHappenings = parseFile demoEnv ''file:///w/trace.happenings'' HAPPENINGS 1 planText"

definition demoHappeningsWorkspace :: PddlWorkspace where
  "demoHappeningsWorkspace =
     associatePlanToProblem
       (associatePlanToProblem
          (run demoEnv
             (demoOps @
               [UpsertFile ''file:///w/problem2.pddl'' PDDL 1 problem2Text False,
                UpsertFile ''file:///w/trace.happenings'' HAPPENINGS 1 planText False])
             newWorkspace)
          ''file:///w/trace.happenings'' demoProblem2)
       ''file:///w/plan.plan'' demoProblem2"

text \<open>The (URI, version) pairs of the UPDATED events emitted so far, oldest first.\<close>

definition updatedPairs :: "PddlWorkspace \<Rightarrow> (string \<times> int) list" where
  "updatedPairs ws =
     map (\<lambda>e. (fileUri (snd e), fileVersion (snd e)))
       (filter (\<lambda>e. fst e = UPDATED) (emitted ws))"

text \<open>
  A document is opened at version 10 and closed, opened again at version 5 and closed,
  and opened a third time at version 6.
\<close>

definition reopenOps :: "Operation list" where
  "reopenOps =
     [UpsertFile ''file:///w/domain.pddl'' PDDL 10 domainText False,
      RemoveFile ''file:///w/domain.pddl'' False,
      UpsertFile ''file:///w/domain.pddl'' PDDL 5 domainText False,
      RemoveFile ''file:///w/domain.pddl'' False,
      UpsertFile ''file:///w/domain.pddl'' PDDL 6 domainText False]"

text \<open>
  The same document as shown by a diff view, under the \<open>git\<close> scheme, is upserted,
  upserted again with a newer version and re-parsed.
\<close>

definition gitOps :: "Operation list" where
  "gitOps =
     demoOps @
     [UpsertFile ''git:/w/domain.pddl'' PDDL 1 domainText False,
      UpsertAndParseFile ''git:/w/domain.pddl'' PDDL 2 domainText,
      ReParseFile (parseFile demoEnv ''git:/w/domain.pddl'' PDDL 2 domainText),
      ParseAllDirty]"

text \<open>
  The domain of the folder is edited (a predicate is added, version 2) and the timer
  fires, so that the domain is re-parsed.
\<close>

definition domainText2 :: string where
  "domainText2 = ''(define (domain d) (:predicates (p) (q)))''"

definition reparseOps :: "Operation list" where
  "reparseOps =
     demoOps @
     [UpsertFile ''file:///w/domain.pddl'' PDDL 2 domainText2 False,
      ParseAllDirty]"

text \<open>
  A folder with a problem and its plan, where the problem has been edited (version 2) and
  is Dirty; the domain is not in the workspace yet.
\<close>

definition problemText2 :: string where
  "problemText2 = ''(define (problem p1) (:domain D) (:init (p) (q)))''"

definition cascadeWorkspace :: PddlWorkspace where
  "cascadeWorkspace =
     run demoEnv
       [UpsertFile ''file:///w/problem.pddl'' PDDL 1 problemText False,
        UpsertFile ''file:///w/plan.plan'' PLAN 1 planText False,
        UpsertFile ''file:///w/problem.pddl'' PDDL 2 problemText2 False]
       newWorkspace"

definition dirtyProblem :: FileInfo where
  "dirtyProblem =
     \<lparr>fileUri = ''file:///w/problem.pddl'', fileVersion = 2, fileStatus = Dirty,
      fileText = problemText2, kind = ProblemInfo (Some ''p1'') (Some ''D'')\<rparr>"

text \<open>
  A document is opened at version 5 and edited to version 6; the edit is parsed by the
  batch re-parse, and the document is closed and opened again at version 6.
\<close>

definition editOps :: "Operation list" where
  "editOps =
     [UpsertFile ''file:///w/domain.pddl'' PDDL 5 domainText False,
      UpsertFile ''file:///w/domain.pddl'' PDDL 6 domainText2 False,
      ParseAllDirty,
      RemoveFile ''file:///w/domain.pddl'' False,
      UpsertFile ''file:///w/domain.pddl'' PDDL 6 domainText2 False]"

definition domainAt :: "int \<Rightarrow> FileInfo" where
  "domainAt ver = parseFile demoEnv ''file:///w/domain.pddl'' PDDL ver domainText2"

subsection \<open>Invariants and relations used in the proofs\<close>

text \<open>
  The invariant of \<open>emitIfNew\<close>: the pairs of the UPDATED events are distinct, and each
  is bounded by the last version recorded for its URI.
\<close>

definition emitInv :: "PddlWorkspace \<Rightarrow> bool" where
  "emitInv ws \<longleftrightarrow>
     distinct (updatedPairs ws)
     \<and> (\<forall>p \<in> set (updatedPairs ws).
          \<exists>l. Map_get (lastVersionUpdateEmitted ws) (fst p) = Some l \<and> snd p \<le> l)"

text \<open>
  What every reachable workspace satisfies: keys are not repeated, a file is stored under
  its own URI in the folder of that URI, and no stored URI has the \<open>git\<close> scheme.
\<close>

definition wellFormedFolder :: "Env \<Rightarrow> string \<Rightarrow> Folder \<Rightarrow> bool" where
  "wellFormedFolder env folderPath folder \<longleftrightarrow>
     distinct (map fst folder)
     \<and> (\<forall>e \<in> set folder. fileUri (snd e) = fst e \<and> getFolderPath env (fst e) = folderPath
           \<and> uriScheme env (fst e) \<noteq> ''git'')"

definition wellFormed :: "Env \<Rightarrow> PddlWorkspace \<Rightarrow> bool" where
  "wellFormed env ws \<longleftrightarrow>
     distinct (map fst (folders ws))
     \<and> (\<forall>e \<in> set (folders ws). wellFormedFolder env (fst e) (snd e))"

text \<open>
  Every version that a folder holds, and every version recorded as emitted, is among the
  pairs \<open>S\<close>.
\<close>

definition versionsKnownIn :: "(string \<times> int) set \<Rightarrow> Folder \<Rightarrow> bool" where
  "versionsKnownIn S folder \<longleftrightarrow>
     (\<forall>e \<in> set folder. (fileUri (snd e), fileVersion (snd e)) \<in> S)"

definition versionsKnown :: "(string \<times> int) set \<Rightarrow> PddlWorkspace \<Rightarrow> bool" where
  "versionsKnown S ws \<longleftrightarrow>
     (\<forall>e \<in> set (folders ws). versionsKnownIn S (snd e))
     \<and> set (lastVersionUpdateEmitted ws) \<subseteq> S"

text \<open>A file info with the status Parsed and everything else as it is.\<close>

definition asParsed :: "FileInfo \<Rightarrow> FileInfo" where
  "asParsed f = f\<lparr>fileStatus := Parsed\<rparr>"

text \<open>The files of a folder, in the order of its map.\<close>

definition stored :: "PddlWorkspace \<Rightarrow> string \<Rightarrow> FileInfo list" where
  "stored ws folderPath =
     (case Map_get (folders ws) folderPath of None \<Rightarrow> [] | Some folder \<Rightarrow> Map_values folder)"

text \<open>
  \<open>touches env U ws ws'\<close>: the files of \<open>ws'\<close> are those of \<open>ws\<close>, with the status
  Parsed for the URIs in \<open>U\<close> and as they were for the others.
\<close>

definition touches :: "Env \<Rightarrow> string set \<Rightarrow> PddlWorkspace \<Rightarrow> PddlWorkspace \<Rightarrow> bool" where
  "touches env U ws ws' \<longleftrightarrow>
     (\<forall>u. getFileInfo env ws' u
            = (if u \<in> U then map_option asParsed (getFileInfo env ws u)
               else getFileInfo env ws u))"

text \<open>Two workspaces that hold the same files up to their status.\<close>

definition sim :: "Env \<Rightarrow> PddlWorkspace \<Rightarrow> PddlWorkspace \<Rightarrow> bool" where
  "sim env ws ws' \<longleftrightarrow>
     (\<forall>u. map_option asParsed (getFileInfo env ws' u) = map_option asParsed (getFileInfo env ws u))"

text \<open>The URIs of the plan and happenings files that refer to a problem.\<close>

definition dependents :: "Env \<Rightarrow> PddlWorkspace \<Rightarrow> FileInfo \<Rightarrow> string set" where
  "dependents env ws p =
     fileUri ` (set (getPlanFiles env ws p) \<union> set (getHappeningsFiles env ws p))"

text \<open>The URIs that the cascade over a list of problems reaches.\<close>

definition touched :: "Env \<Rightarrow> PddlWorkspace \<Rightarrow> FileInfo list \<Rightarrow> string set" where
  "touched env ws ps = fileUri ` set ps \<union> (\<Union>p \<in> set ps. dependents env ws p)"

section \<open>The problem parser (PddlProblemParser.ts)\<close>

subsection \<open>Numbers\<close>

text \<open>
  A JavaScript number, kept as the exact value of its decimal literal: the rounding to
  an IEEE double is not part of the model.
\<close>

datatype JsNumber = Num real | PosInfinity | NegInfinity | NaN

text \<open>The white space of \<open>\s\<close> and of \<open>parseFloat\<close>, within ASCII.\<close>

definition isWhitespaceChar :: "char \<Rightarrow> bool" where
  "isWhitespaceChar c \<longleftrightarrow> c \<in> set [CHR '' '', CHR 0x09, CHR 0x0A, CHR 0x0B, CHR 0x0C, CHR 0x0D]"

definition isDigit :: "char \<Rightarrow> bool" where
  "isDigit c \<longleftrightarrow> 48 \<le> (of_char c :: nat) \<and> (of_char c :: nat) \<le> 57"

definition digitsValue :: "string \<Rightarrow> nat" where
  "digitsValue ds = foldl (\<lambda>acc c. 10 * acc + ((of_char c :: nat) - 48)) 0 ds"

definition readSign :: "string \<Rightarrow> bool \<times> string" where
  "readSign s = (case s of
       c # r \<Rightarrow> if c = CHR ''-'' then (True, r) else if c = CHR ''+'' then (False, r) else (False, s)
     | [] \<Rightarrow> (False, s))"

definition scaleByPowerOfTen :: "real \<Rightarrow> bool \<Rightarrow> nat \<Rightarrow> real" where
  "scaleByPowerOfTen x negative e = (if negative then x / 10 ^ e else x * 10 ^ e)"

text \<open>
  The global \<open>parseFloat\<close>: leading white space is skipped, and the longest prefix that
  is a decimal literal (sign, \<open>Infinity\<close> or digits with an optional fraction and an
  optional exponent) gives the value; when there is no such prefix the result is \<open>NaN\<close>.
\<close>

definition parseFloat :: "string \<Rightarrow> JsNumber" where
  "parseFloat s =
     (case readSign (dropWhile isWhitespaceChar s) of
        (negative, r) \<Rightarrow>
          if take 8 r = ''Infinity'' then (if negative then NegInfinity else PosInfinity)
          else
            (let intDigits = takeWhile isDigit r;
                 r1 = dropWhile isDigit r;
                 hasPoint = (take 1 r1 = ''.'');
                 fracDigits = (if hasPoint then takeWhile isDigit (drop 1 r1) else []);
                 r2 = (if hasPoint then dropWhile isDigit (drop 1 r1) else r1)
             in if intDigits = [] \<and> fracDigits = [] then NaN
                else
                  (let mantissa = real (digitsValue intDigits)
                         + real (digitsValue fracDigits) / 10 ^ length fracDigits;
                       hasExponent = (take 1 r2 = ''e'' \<or> take 1 r2 = ''E'');
                       expSign = readSign (drop 1 r2);
                       expDigits = takeWhile isDigit (snd expSign);
                       scaled = (if hasExponent \<and> expDigits \<noteq> []
                                 then scaleByPowerOfTen mantissa (fst expSign) (digitsValue expDigits)
                                 else mantissa)
                   in Num (if negative then - scaled else scaled))))"

subsection \<open>Syntax nodes\<close>

text \<open>
  Modelled from the spec: the tokens and the syntax nodes (PddlTokenizer.ts and
  PddlSyntaxNode.ts are not among the sources). A token has a kind and its text; the
  offsets are left out. A node wraps one token and has its children in order; the
  closing bracket of a bracket node is not one of its children, and is absent when the
  bracket is not closed.
\<close>

datatype PddlTokenType =
  OpenBracketOperator | OpenBracket | CloseBracket | Parameter | Comment | Whitespace | Other
  | Document

datatype PddlToken = PddlToken (tokenType: PddlTokenType) (tokenText: string)

datatype PddlSyntaxNode =
  Node (getToken: PddlToken) (getChildren: "PddlSyntaxNode list") (closeToken: "PddlToken option")

definition isOpenBracket :: "PddlToken \<Rightarrow> bool" where
  "isOpenBracket token \<longleftrightarrow> tokenType token = OpenBracketOperator \<or> tokenType token = OpenBracket"

definition isType :: "PddlSyntaxNode \<Rightarrow> PddlTokenType \<Rightarrow> bool" where
  "isType node t \<longleftrightarrow> tokenType (getToken node) = t"

definition isNotType :: "PddlSyntaxNode \<Rightarrow> PddlTokenType \<Rightarrow> bool" where
  "isNotType node t \<longleftrightarrow> tokenType (getToken node) \<noteq> t"

definition getNonWhitespaceChildren :: "PddlSyntaxNode \<Rightarrow> PddlSyntaxNode list" where
  "getNonWhitespaceChildren node = filter (\<lambda>c. isNotType c Whitespace) (getChildren node)"

text \<open>
  The text of a node is the text it spans: its token, the text of its children, and its
  closing bracket.
\<close>

fun getText :: "PddlSyntaxNode \<Rightarrow> string" where
  "getText (Node token children close) =
     tokenText token @ concat (map getText children)
       @ (case close of Some c \<Rightarrow> tokenText c | None \<Rightarrow> [])"

definition getNestedText :: "PddlSyntaxNode \<Rightarrow> string" where
  "getNestedText node = concat (map getText (getChildren node))"

fun getNonCommentText :: "PddlSyntaxNode \<Rightarrow> string" where
  "getNonCommentText (Node token children close) =
     tokenText token
       @ concat (map getNonCommentText
                   (filter (\<lambda>c. tokenType (getToken c) \<noteq> Comment) children))
       @ (case close of Some c \<Rightarrow> tokenText c | None \<Rightarrow> [])"

definition getNestedNonCommentText :: "PddlSyntaxNode \<Rightarrow> string" where
  "getNestedNonCommentText node =
     concat (map getNonCommentText (filter (\<lambda>c. isNotType c Comment) (getChildren node)))"

definition getFirstChild ::
  "PddlSyntaxNode \<Rightarrow> PddlTokenType \<Rightarrow> (string \<Rightarrow> bool) \<Rightarrow> PddlSyntaxNode option" where
  "getFirstChild node t pattern =
     find (\<lambda>c. isType c t \<and> pattern (tokenText (getToken c))) (getChildren node)"

definition getChildrenOfType ::
  "PddlSyntaxNode \<Rightarrow> PddlTokenType \<Rightarrow> (string \<Rightarrow> bool) \<Rightarrow> PddlSyntaxNode list" where
  "getChildrenOfType node t pattern =
     filter (\<lambda>c. isType c t \<and> pattern (tokenText (getToken c))) (getChildren node)"

subsection \<open>Regular expressions of the parser\<close>

definition startsWithIgnoreCase :: "string \<Rightarrow> string \<Rightarrow> bool" where
  "startsWithIgnoreCase p s \<longleftrightarrow> toLowerCase (take (length p) s) = toLowerCase p"

fun matchesAnywhere :: "(string \<Rightarrow> bool) \<Rightarrow> string \<Rightarrow> bool" where
  "matchesAnywhere p [] = p []"
| "matchesAnywhere p (c # cs) = (p (c # cs) \<or> matchesAnywhere p cs)"

text \<open>The pattern \<open>/\(\s*supply-demand/i\<close>, searched anywhere in the text.\<close>

definition supplyDemandPattern :: "string \<Rightarrow> bool" where
  "supplyDemandPattern s =
     matchesAnywhere
       (\<lambda>t. take 1 t = ''('' \<and> startsWithIgnoreCase ''supply-demand'' (dropWhile isWhitespaceChar (drop 1 t)))
       s"

text \<open>The pattern \<open>/.*/\<close> matches every text.\<close>

definition anyPattern :: "string \<Rightarrow> bool" where
  "anyPattern s = True"

subsection \<open>Values of the initial state\<close>

text \<open>
  Modelled from the spec: the value classes of ProblemInfo.ts, which is not among the
  sources. A variable value has a variable name and a boolean or numeric value; an
  unsupported value keeps the text it was made from. A timed value is made from a time
  and a variable value, and an unsupported value stays recognisable in it. \<open>negate\<close> is
  the boolean negation of the value (\<open>!value\<close>, which for a number is true for 0 and
  \<open>NaN\<close>); the negation of an unsupported value is taken to be the value itself.
\<close>

datatype JsValue = NumberValue JsNumber | BooleanValue bool

datatype VariableValue = VariableValue string JsValue | UnsupportedVariableValue string

datatype TimedVariableValue = TimedVariableValue JsNumber VariableValue

datatype SupplyDemand = SupplyDemand string

definition TimedVariableValue_from :: "JsNumber \<Rightarrow> VariableValue \<Rightarrow> TimedVariableValue" where
  "TimedVariableValue_from t v = TimedVariableValue t v"

fun negate :: "VariableValue \<Rightarrow> VariableValue" where
  "negate (VariableValue n (BooleanValue b)) = VariableValue n (BooleanValue (\<not> b))"
| "negate (VariableValue n (NumberValue x)) =
     VariableValue n (BooleanValue (x = Num 0 \<or> x = NaN))"
| "negate (UnsupportedVariableValue t) = UnsupportedVariableValue t"

subsection \<open>The \<open>:init\<close> section\<close>

text \<open>
  \<open>parseVariableValue\<close>, on a node (its parameter has the type \<open>PddlSyntaxNode\<close>, and
  the callers pass a node). \<open>substr(1)\<close> is \<open>drop 1\<close>.
\<close>

function parseVariableValue :: "PddlSyntaxNode \<Rightarrow> VariableValue option" where
  "parseVariableValue node =
     (if tokenText (getToken node) = ''(='' then
        (let tokens = filter (\<lambda>n. isNotType n Comment) (getNonWhitespaceChildren node)
         in if length tokens > 1 then
              (if isType (tokens ! 0) OpenBracket \<and> isType (tokens ! 1) Other
               then Some (VariableValue (getNestedText (tokens ! 0))
                            (NumberValue (parseFloat (getText (tokens ! 1)))))
               else None)
            else None)
      else if tokenText (getToken node) = ''(not'' then
        (case (case getFirstChild node OpenBracket anyPattern of
                 Some n \<Rightarrow> Some n
               | None \<Rightarrow> getFirstChild node OpenBracketOperator anyPattern) of
           None \<Rightarrow> None
         | Some nested \<Rightarrow> map_option negate (parseVariableValue nested))
      else if tokenText (getToken node)
                \<in> set [''(forall'', ''(assign'', ''(increase'', ''(decrease''] then
        Some (UnsupportedVariableValue (getText node))
      else
        (if list_ex (\<lambda>child. isOpenBracket (getToken child)) (getChildren node) then None
         else Some (VariableValue (drop 1 (tokenText (getToken node)) @ getNestedText node)
                      (BooleanValue True))))"
  by pat_completeness auto
termination
proof (relation "measure size", goal_cases)
  case 1
  show ?case by simp
next
  case (2 node nested)
  then have "nested \<in> set (getChildren node)"
    by (auto simp add: getFirstChild_def find_Some_iff split: option.splits)
  then have "size nested \<le> size_list size (getChildren node)"
    by (rule size_list_estimation') simp
  then show ?case by (cases node) simp
qed

definition parseInit :: "PddlSyntaxNode \<Rightarrow> TimedVariableValue option" where
  "parseInit bracket =
     (let timed =
        (if tokenText (getToken bracket) = ''(at'' then
           (let tokens = filter (\<lambda>n. isNotType n Comment) (getNonWhitespaceChildren bracket)
            in if length tokens > 1 then
                 (let time = parseFloat (getText (tokens ! 0))
                  in if time \<noteq> NaN then
                       (case parseVariableValue (tokens ! 1) of
                          Some variableValue \<Rightarrow> Some (TimedVariableValue_from time variableValue)
                        | None \<Rightarrow> None)
                     else None)
               else None)
         else None)
      in case timed of
           Some timedValue \<Rightarrow> Some timedValue
         | None \<Rightarrow>
             (case parseVariableValue bracket of
                Some variableValue \<Rightarrow> Some (TimedVariableValue_from (Num 0) variableValue)
              | None \<Rightarrow> None))"

definition parseSupplyDemand :: "PddlSyntaxNode \<Rightarrow> SupplyDemand option" where
  "parseSupplyDemand node =
     (let tokens = getNonWhitespaceChildren node
      in if length tokens > 0 \<and> isType (tokens ! 0) Other
         then Some (SupplyDemand (getText (tokens ! 0)))
         else None)"

definition parseInitSection :: "PddlSyntaxNode \<Rightarrow> TimedVariableValue list \<times> SupplyDemand list" where
  "parseInitSection initNode =
     (let timedVariableValues =
            List.map_filter parseInit
              (filter (\<lambda>node. \<not> supplyDemandPattern (tokenText (getToken node)))
                 (filter (\<lambda>node. isOpenBracket (getToken node)) (getChildren initNode)));
          supplyDemands =
            List.map_filter parseSupplyDemand
              (getChildrenOfType initNode OpenBracketOperator supplyDemandPattern)
      in (timedVariableValues, supplyDemands))"
subsection \<open>The syntax tree of a text\<close>

text \<open>
  Modelled from the spec: the tokenizer (PddlTokenizer.ts is not among the sources).
  White space runs and comments (from \<open>;\<close> to the end of the line) are tokens of their
  own. An open bracket followed, after optional white space, by a keyword is one
  operator-bracket token whose text runs from the bracket to the end of the keyword; any
  other open bracket is a plain one. A word that starts with \<open>?\<close> is a parameter, any
  other word is of the kind Other. The keywords are the section names (the words that
  start with a colon) and the operators listed in \<open>operatorKeywords\<close>.
\<close>

definition isWordChar :: "char \<Rightarrow> bool" where
  "isWordChar c \<longleftrightarrow> \<not> isWhitespaceChar c \<and> c \<notin> set [CHR ''('', CHR '')'', CHR '';'']"

definition isEndOfLine :: "char \<Rightarrow> bool" where
  "isEndOfLine c \<longleftrightarrow> c = CHR 0x0A \<or> c = CHR 0x0D"

definition operatorKeywords :: "string list" where
  "operatorKeywords =
     [''define'', ''domain'', ''problem'', ''and'', ''or'', ''not'', ''imply'', ''forall'',
      ''exists'', ''when'', ''at'', ''='', ''<'', ''>'', ''<='', ''>='', ''+'', ''-'', ''*'', ''/'',
      ''assign'', ''increase'', ''decrease'', ''scale-up'', ''scale-down'', ''supply-demand'']"

definition isKeyword :: "string \<Rightarrow> bool" where
  "isKeyword w \<longleftrightarrow> (length w > 1 \<and> take 1 w = '':'') \<or> toLowerCase w \<in> set operatorKeywords"

function tokenize :: "string \<Rightarrow> PddlToken list" where
  "tokenize [] = []"
| "tokenize (c # cs) =
     (if isWhitespaceChar c then
        PddlToken Whitespace (c # takeWhile isWhitespaceChar cs)
          # tokenize (dropWhile isWhitespaceChar cs)
      else if c = CHR '';'' then
        PddlToken Comment (c # takeWhile (\<lambda>x. \<not> isEndOfLine x) cs)
          # tokenize (dropWhile (\<lambda>x. \<not> isEndOfLine x) cs)
      else if c = CHR ''('' then
        (if isKeyword (takeWhile isWordChar (dropWhile isWhitespaceChar cs)) then
           PddlToken OpenBracketOperator
               (c # takeWhile isWhitespaceChar cs
                  @ takeWhile isWordChar (dropWhile isWhitespaceChar cs))
             # tokenize (dropWhile isWordChar (dropWhile isWhitespaceChar cs))
         else PddlToken OpenBracket [c] # tokenize cs)
      else if c = CHR '')'' then PddlToken CloseBracket [c] # tokenize cs
      else
        PddlToken (if c = CHR ''?'' then Parameter else Other) (c # takeWhile isWordChar cs)
          # tokenize (dropWhile isWordChar cs))"
  by pat_completeness auto
termination
  by (relation "measure length")
     (auto intro: le_imp_less_Suc length_dropWhile_le order_trans [OF length_dropWhile_le])

text \<open>
  Modelled from the spec: the syntax tree builder (PddlSyntaxTreeBuilder.ts is not among
  the sources). One pass over the tokens with a stack of the brackets that are open: an
  open bracket is pushed; a close bracket pops the top bracket and attaches it, with the
  close bracket, to its parent, or is recorded as an offending token when no bracket is
  open; any other token becomes a leaf child of the top bracket. At the end of the input
  the brackets still open are recorded as offending tokens and attached unclosed. The
  root is the document node.
\<close>

datatype PddlSyntaxTree =
  PddlSyntaxTree (getRootNode: PddlSyntaxNode) (getOffendingTokens: "PddlToken list")

type_synonym OpenNode = "PddlToken \<times> PddlSyntaxNode list"

fun addChild :: "PddlSyntaxNode \<Rightarrow> OpenNode list \<Rightarrow> PddlSyntaxNode list
    \<Rightarrow> OpenNode list \<times> PddlSyntaxNode list" where
  "addChild n [] documentChildren = ([], n # documentChildren)"
| "addChild n ((t, cs) # stack) documentChildren = ((t, n # cs) # stack, documentChildren)"

fun closeAll :: "OpenNode list \<Rightarrow> PddlSyntaxNode list \<Rightarrow> PddlToken list
    \<Rightarrow> PddlSyntaxNode list \<times> PddlToken list" where
  "closeAll [] documentChildren offending = (documentChildren, offending)"
| "closeAll [(t, cs)] documentChildren offending =
     (Node t (rev cs) None # documentChildren, t # offending)"
| "closeAll ((t, cs) # (t', cs') # stack) documentChildren offending =
     closeAll ((t', Node t (rev cs) None # cs') # stack) documentChildren (t # offending)"

fun buildTree :: "PddlToken list \<Rightarrow> OpenNode list \<Rightarrow> PddlSyntaxNode list \<Rightarrow> PddlToken list
    \<Rightarrow> PddlSyntaxTree" where
  "buildTree [] stack documentChildren offending =
     (case closeAll stack documentChildren offending of
        (documentChildren', offending') \<Rightarrow>
          PddlSyntaxTree (Node (PddlToken Document []) (rev documentChildren') None)
            (rev offending'))"
| "buildTree (token # tokens) stack documentChildren offending =
     (if isOpenBracket token then buildTree tokens ((token, []) # stack) documentChildren offending
      else if tokenType token = CloseBracket then
        (case stack of
           [] \<Rightarrow> buildTree tokens [] documentChildren (token # offending)
         | (t, cs) # rest \<Rightarrow>
             (case addChild (Node t (rev cs) (Some token)) rest documentChildren of
                (stack', documentChildren') \<Rightarrow> buildTree tokens stack' documentChildren' offending))
      else
        (case addChild (Node token [] None) stack documentChildren of
           (stack', documentChildren') \<Rightarrow> buildTree tokens stack' documentChildren' offending))"

definition getTree :: "string \<Rightarrow> PddlSyntaxTree" where
  "getTree txt = buildTree (tokenize txt) [] [] []"

text \<open>
  Modelled from the spec: \<open>getFirstOpenBracket\<close> and \<open>getDefineNodeOrThrow\<close> (PddlSyntaxNode.ts
  and PddlSyntaxTree.ts are not among the sources): the first child that is an operator
  bracket of the given keyword, up to case; the \<open>define\<close> bracket of the document, or an
  error when there is none.
\<close>

definition keywordPattern :: "string \<Rightarrow> string \<Rightarrow> bool" where
  "keywordPattern keyword s =
     matchesAnywhere
       (\<lambda>t. take 1 t = ''(''
             \<and> toLowerCase (dropWhile isWhitespaceChar (drop 1 t)) = toLowerCase keyword)
       s"

definition getFirstOpenBracket :: "PddlSyntaxNode \<Rightarrow> string \<Rightarrow> PddlSyntaxNode option" where
  "getFirstOpenBracket node keyword =
     getFirstChild node OpenBracketOperator (keywordPattern keyword)"

datatype ParserError = DefineNodeNotFound

definition getDefineNodeOrThrow :: "PddlSyntaxTree \<Rightarrow> ParserError + PddlSyntaxNode" where
  "getDefineNodeOrThrow tree =
     (case getFirstOpenBracket (getRootNode tree) ''define'' of
        Some n \<Rightarrow> Inr n
      | None \<Rightarrow> Inl DefineNodeNotFound)"

subsection \<open>Objects\<close>

text \<open>
  Modelled from the spec: \<open>PddlInheritanceParser.parseInheritance\<close> and \<open>toTypeObjects\<close>
  (PddlInheritanceParser.ts is not among the sources). The words of the text are scanned
  from the left; names are buffered until a \<open>-\<close> is seen, and become the children of the
  name that follows it; the names left in the buffer at the end belong to the default
  root \<open>object\<close>. The result maps a type to its objects, in order and without repetition.
\<close>

function splitWords :: "string \<Rightarrow> string list" where
  "splitWords [] = []"
| "splitWords (c # cs) =
     (if isWhitespaceChar c then splitWords (dropWhile isWhitespaceChar cs)
      else (c # takeWhile (\<lambda>x. \<not> isWhitespaceChar x) cs)
             # splitWords (dropWhile (\<lambda>x. \<not> isWhitespaceChar x) cs))"
  by pat_completeness auto
termination
  by (relation "measure length") (auto intro: le_imp_less_Suc length_dropWhile_le)

definition addObjects ::
  "string \<Rightarrow> string list \<Rightarrow> (string, string list) Map \<Rightarrow> (string, string list) Map" where
  "addObjects parent names m =
     (let old = (case Map_get m parent of None \<Rightarrow> [] | Some xs \<Rightarrow> xs)
      in Map_set parent (old @ filter (\<lambda>n. n \<notin> set old) (rev (remdups (rev names)))) m)"

fun scanInheritance ::
  "string list \<Rightarrow> string list \<Rightarrow> (string, string list) Map \<Rightarrow> (string, string list) Map" where
  "scanInheritance [] buffer m = (if buffer = [] then m else addObjects ''object'' buffer m)"
| "scanInheritance (w # ws) buffer m =
     (if w = ''-'' then
        (case ws of
           [] \<Rightarrow> scanInheritance [] buffer m
         | parent # rest \<Rightarrow> scanInheritance rest [] (addObjects parent buffer m))
      else scanInheritance ws (buffer @ [w]) m)"

definition toTypeObjects :: "string \<Rightarrow> (string, string list) Map" where
  "toTypeObjects objectsText = scanInheritance (splitWords objectsText) [] []"

subsection \<open>Parsing a problem\<close>

text \<open>
  Modelled from the spec: \<open>stripComments\<close> (FileInfo.ts is not among the sources): every
  comment, from \<open>;\<close> to the end of its line, is removed.
\<close>

function stripComments :: "string \<Rightarrow> string" where
  "stripComments [] = []"
| "stripComments (c # cs) =
     (if c = CHR '';'' then stripComments (dropWhile (\<lambda>x. \<not> isEndOfLine x) cs)
      else c # stripComments cs)"
  by pat_completeness auto
termination
  by (relation "measure length") (auto intro: le_imp_less_Suc length_dropWhile_le)

text \<open>
  The pattern
  \<open>/^\s*\(define\s*\(problem\s+(\S+)\s*\)\s*\(:domain\s+(\S+)\s*\)/gi\<close>, matched from the
  start of the text. A group \<open>(\S+)\<close> takes the longest run of characters that lets the
  rest of the pattern match, so the lengths are tried from the longest down.
\<close>

definition skipLiteral :: "string \<Rightarrow> string \<Rightarrow> string option" where
  "skipLiteral literal s =
     (if startsWithIgnoreCase literal s \<and> length literal \<le> length s
      then Some (drop (length literal) s) else None)"

definition skipSpaces :: "string \<Rightarrow> string" where
  "skipSpaces s = dropWhile isWhitespaceChar s"

definition skipSpaces1 :: "string \<Rightarrow> string option" where
  "skipSpaces1 s = (if take 1 s \<noteq> [] \<and> isWhitespaceChar (hd s) then Some (skipSpaces s) else None)"

primrec tryLengths :: "nat \<Rightarrow> (nat \<Rightarrow> 'a option) \<Rightarrow> 'a option" where
  "tryLengths 0 f = None"
| "tryLengths (Suc n) f = (case f (Suc n) of Some x \<Rightarrow> Some x | None \<Rightarrow> tryLengths n f)"

definition captureNonSpace :: "string \<Rightarrow> (string \<Rightarrow> string \<Rightarrow> 'a option) \<Rightarrow> 'a option" where
  "captureNonSpace s continue =
     tryLengths (length (takeWhile (\<lambda>x. \<not> isWhitespaceChar x) s))
       (\<lambda>n. continue (take n s) (drop n s))"

definition problemPattern :: "string \<Rightarrow> (string \<times> string) option" where
  "problemPattern pddlText =
     Option.bind (skipLiteral ''(define'' (skipSpaces pddlText)) (\<lambda>r1.
     Option.bind (skipLiteral ''(problem'' (skipSpaces r1)) (\<lambda>r2.
     Option.bind (skipSpaces1 r2) (\<lambda>r3.
     captureNonSpace r3 (\<lambda>problemName r4.
     Option.bind (skipLiteral '')'' (skipSpaces r4)) (\<lambda>r5.
     Option.bind (skipLiteral ''(:domain'' (skipSpaces r5)) (\<lambda>r6.
     Option.bind (skipSpaces1 r6) (\<lambda>r7.
     captureNonSpace r7 (\<lambda>domainName r8.
     Option.bind (skipLiteral '')'' (skipSpaces r8)) (\<lambda>r9.
     Some (problemName, domainName))))))))))"

text \<open>
  The problem info that \<open>parse\<close> builds, with the properties that \<open>getProblemStructure\<close>
  sets from the \<open>:objects\<close> and the \<open>:init\<close> section. The requirements and the constraints
  are left out: their parsers are not among the sources.
\<close>

record ParsingProblem =
  problemMessage :: string
  problemLine :: nat
  problemColumn :: nat

record ProblemInfoRecord =
  problem_fileUri :: string
  problem_version :: int
  problem_name :: string
  problem_domainName :: string
  problem_text :: string
  problem_objects :: "(string, string list) Map"
  problem_inits :: "TimedVariableValue list"
  problem_supplyDemands :: "SupplyDemand list"
  problem_parsingProblems :: "ParsingProblem list"

definition newProblemInfo :: "string \<Rightarrow> int \<Rightarrow> string \<Rightarrow> string \<Rightarrow> ProblemInfoRecord" where
  "newProblemInfo uri ver pName dName =
     \<lparr>problem_fileUri = uri, problem_version = ver, problem_name = pName,
      problem_domainName = dName, problem_text = [], problem_objects = [], problem_inits = [],
      problem_supplyDemands = [], problem_parsingProblems = []\<rparr>"

definition getProblemStructure ::
  "PddlSyntaxTree \<Rightarrow> ProblemInfoRecord \<Rightarrow> ParserError + ProblemInfoRecord" where
  "getProblemStructure syntaxTree problemInfo =
     (case getDefineNodeOrThrow syntaxTree of
        Inl e \<Rightarrow> Inl e
      | Inr defineNode \<Rightarrow>
          (let info1 =
                 (case getFirstOpenBracket defineNode '':objects'' of
                    Some objectsNode \<Rightarrow>
                      problemInfo\<lparr>problem_objects :=
                        toTypeObjects (getNestedNonCommentText objectsNode)\<rparr>
                  | None \<Rightarrow> problemInfo);
               info2 =
                 (case getFirstOpenBracket defineNode '':init'' of
                    Some initNode \<Rightarrow>
                      (case parseInitSection initNode of
                         (timedValues, supplyDemands) \<Rightarrow>
                           info1\<lparr>problem_inits := timedValues, problem_supplyDemands := supplyDemands\<rparr>)
                  | None \<Rightarrow> info1)
           in Inr info2))"

text \<open>
  The pre-processor of the parser, when the parser was given a context: it returns the
  processed text or fails, with a \<open>PreProcessingError\<close> carrying a line and a column, or
  with any other error, for which the line is looked up by the position resolver.
\<close>

datatype PreProcessingResult =
  Processed string | PreProcessingError string nat nat | OtherError string nat

definition parse ::
  "(string \<Rightarrow> PreProcessingResult) option \<Rightarrow> string \<Rightarrow> int \<Rightarrow> string \<Rightarrow> PddlSyntaxTree
     \<Rightarrow> ParserError + ProblemInfoRecord option" where
  "parse problemPreParser uri ver sourceText syntaxTree =
     (case (case problemPreParser of
              None \<Rightarrow> Processed sourceText
            | Some process \<Rightarrow> process sourceText) of
        PreProcessingError message line column \<Rightarrow>
          Inr (Some ((newProblemInfo uri ver ''unknown'' ''unknown'')
                 \<lparr>problem_text := sourceText,
                  problem_parsingProblems :=
                    [\<lparr>problemMessage = message, problemLine = line, problemColumn = column\<rparr>]\<rparr>))
      | OtherError message line \<Rightarrow>
          Inr (Some ((newProblemInfo uri ver ''unknown'' ''unknown'')
                 \<lparr>problem_text := sourceText,
                  problem_parsingProblems :=
                    [\<lparr>problemMessage = message, problemLine = line, problemColumn = 0\<rparr>]\<rparr>))
      | Processed processedText \<Rightarrow>
          (case problemPattern (stripComments processedText) of
             None \<Rightarrow> Inr None
           | Some (pName, dName) \<Rightarrow>
               (case getProblemStructure syntaxTree
                       ((newProblemInfo uri ver pName dName)\<lparr>problem_text := processedText\<rparr>) of
                  Inl e \<Rightarrow> Inl e
                | Inr problemInfo \<Rightarrow> Inr (Some problemInfo))))"

text \<open>The two example inputs of the spec, and hand-built nodes for three \<open>:init\<close> brackets.\<close>

definition exampleProblem :: string where
  "exampleProblem =
     ''(define (problem p1) (:domain d1) (:objects a b - loc) (:init (at 5 (visited a))))''"

definition badProblem :: string where
  "badProblem = ''(define (problem bad) (:domain d1) (:init (at (foo))))''"

definition leaf :: "PddlTokenType \<Rightarrow> string \<Rightarrow> PddlSyntaxNode" where
  "leaf t s = Node (PddlToken t s) [] None"

definition bracket :: "PddlTokenType \<Rightarrow> string \<Rightarrow> PddlSyntaxNode list \<Rightarrow> PddlSyntaxNode" where
  "bracket t s children = Node (PddlToken t s) children (Some (PddlToken CloseBracket '')''))"

definition atFooNode :: PddlSyntaxNode where
  "atFooNode =
     bracket OpenBracketOperator ''(at''
       [leaf Whitespace '' '', bracket OpenBracket ''('' [leaf Other ''foo'']]"

definition atKitchenNode :: PddlSyntaxNode where
  "atKitchenNode =
     bracket OpenBracketOperator ''(at''
       [leaf Whitespace '' '', leaf Other ''kitchen'', leaf Whitespace '' '', leaf Other ''robot'']"

definition forallNode :: PddlSyntaxNode where
  "forallNode =
     bracket OpenBracketOperator ''(forall''
       [leaf Whitespace '' '', bracket OpenBracket ''('' [leaf Parameter ''?x''],
        leaf Whitespace '' '',
        bracket OpenBracket ''('' [leaf Other ''p'', leaf Whitespace '' '', leaf Parameter ''?x'']]"

definition initNodeWithForall :: PddlSyntaxNode where
  "initNodeWithForall =
     bracket OpenBracketOperator ''(:init''
       [leaf Whitespace '' '', atKitchenNode, leaf Whitespace '' '', forallNode]"

section \<open>Properties of the workspace\<close>

subsection \<open>Removal of a file with explicit associations\<close>

text \<open>
  C7. For every file URI that is a key or a value of the problem-to-domain map or of the
  plan-to-problem map, \<open>removeFile\<close> without \<open>removeAllReferences\<close> returns false and leaves
  the whole workspace (folders, files, associations, emitted events) as it was.
\<close>

theorem removeFile_keeps_associated:
  assumes "Map_has (problemToDomainMap ws) uri \<or> uri \<in> set (Map_values (problemToDomainMap ws))
     \<or> Map_has (planToProblemMap ws) uri \<or> uri \<in> set (Map_values (planToProblemMap ws))"
  shows "removeFile env ws uri False = (False, ws)"
  using assms by (simp add: removeFile_def hasExplicitAssociations_def)

theorem removeFile_keeps_associated_witness:
  "Map_has (planToProblemMap demoAssociated) ''file:///w/plan.plan''
   \<and> getFileInfo demoEnv demoAssociated ''file:///w/plan.plan'' \<noteq> None
   \<and> removeFile demoEnv demoAssociated ''file:///w/plan.plan'' False = (False, demoAssociated)"
proof -
  have h: "Map_has (planToProblemMap demoAssociated) ''file:///w/plan.plan''"
    by code_simp
  have g: "getFileInfo demoEnv demoAssociated ''file:///w/plan.plan'' \<noteq> None"
    by code_simp
  show ?thesis
    using h g removeFile_keeps_associated [of demoAssociated "''file:///w/plan.plan''" demoEnv]
    by blast
qed

subsection \<open>Events other than UPDATED\<close>

text \<open>
  C10. The suppression of stale events in \<open>emitIfNew\<close> concerns the UPDATED symbol only:
  for any other symbol the event is emitted whatever versions were emitted before, and
  nothing else changes. So \<open>insertFile\<close> always ends by emitting INSERTED for the file it
  parsed, and \<open>removeFile\<close>, when it finds the file and is not held back by an explicit
  association, emits REMOVING for it.
\<close>

theorem only_UPDATED_is_suppressed:
  "(symbol \<noteq> UPDATED \<longrightarrow>
      emitIfNew ws symbol fileInfo = ws\<lparr>emitted := emitted ws @ [(symbol, fileInfo)]\<rparr>)
   \<and> emitted (snd (insertFile env ws folderPath uri language ver txt)) \<noteq> []
   \<and> last (emitted (snd (insertFile env ws folderPath uri language ver txt)))
       = (INSERTED, parseFile env uri language ver txt)
   \<and> (getFileInfo env ws uri = Some documentInfo
        \<and> (\<not> hasExplicitAssociations ws uri \<or> removeAllReferences) \<longrightarrow>
      emitted (snd (removeFile env ws uri removeAllReferences))
        = emitted ws @ [(REMOVING, documentInfo)])"
  by (auto simp add: emitIfNew_def emit_def insertFile_def removeFile_def getFileInfo_def
        inFolder_def Let_def split: option.splits)

theorem only_UPDATED_is_suppressed_witness:
  "Map_get (lastVersionUpdateEmitted demoWorkspace) (fileUri demoProblem) = Some 1
   \<and> fileVersion demoProblem = 1
   \<and> emitIfNew demoWorkspace UPDATED demoProblem = demoWorkspace
   \<and> emitIfNew demoWorkspace INSERTED demoProblem
       = demoWorkspace\<lparr>emitted := emitted demoWorkspace @ [(INSERTED, demoProblem)]\<rparr>
   \<and> emitIfNew demoWorkspace REMOVING demoProblem
       = demoWorkspace\<lparr>emitted := emitted demoWorkspace @ [(REMOVING, demoProblem)]\<rparr>"
proof -
  have a: "Map_get (lastVersionUpdateEmitted demoWorkspace) (fileUri demoProblem) = Some 1"
    by code_simp
  have b: "fileVersion demoProblem = 1"
    by code_simp
  have c: "emitIfNew demoWorkspace UPDATED demoProblem = demoWorkspace"
    by (simp add: emitIfNew_def a b)
  show ?thesis
    using a b c
      only_UPDATED_is_suppressed [of INSERTED demoWorkspace demoProblem]
      only_UPDATED_is_suppressed [of REMOVING demoWorkspace demoProblem]
    by simp
qed

subsection \<open>The domain of a problem\<close>

text \<open>
  C6. For a problem file with no explicit domain association, \<open>getDomainFilesFor\<close> returns
  all the candidates, that is every domain file of the problem's folder whose name equals
  the problem's domain name up to case, in the folder's order; \<open>getDomainFileFor\<close> returns
  a domain exactly when that list has one element (then that element), and none when the
  list is empty or has several.
\<close>

theorem getDomainFileFor_needs_one_candidate:
  assumes "\<not> Map_has (problemToDomainMap ws) (fileUri problemFile)"
  shows "getDomainFilesFor env ws problemFile
           = (case Map_get (folders ws) (getFolderPath env (fileUri problemFile)) of
                None \<Rightarrow> []
              | Some folder \<Rightarrow>
                  filter (\<lambda>d. isDomain d \<and> lowerCaseEquals (name d) (domainName problemFile))
                    (Map_values folder))
         \<and> (getDomainFileFor env ws problemFile = Some d
              \<longleftrightarrow> getDomainFilesFor env ws problemFile = [d])
         \<and> (getDomainFileFor env ws problemFile = None
              \<longleftrightarrow> length (getDomainFilesFor env ws problemFile) \<noteq> 1)"
proof (intro conjI)
  show "getDomainFilesFor env ws problemFile
           = (case Map_get (folders ws) (getFolderPath env (fileUri problemFile)) of
                None \<Rightarrow> []
              | Some folder \<Rightarrow>
                  filter (\<lambda>d. isDomain d \<and> lowerCaseEquals (name d) (domainName problemFile))
                    (Map_values folder))"
    using assms
    by (simp add: getDomainFilesFor_def Folder_getDomainFilesFor_def split: option.splits)
next
  show "getDomainFileFor env ws problemFile = Some d
              \<longleftrightarrow> getDomainFilesFor env ws problemFile = [d]"
    by (cases "getDomainFilesFor env ws problemFile")
       (auto simp add: getDomainFileFor_def Let_def)
next
  show "getDomainFileFor env ws problemFile = None
              \<longleftrightarrow> length (getDomainFilesFor env ws problemFile) \<noteq> 1"
    by (simp add: getDomainFileFor_def Let_def)
qed

theorem getDomainFileFor_needs_one_candidate_witness:
  "\<not> Map_has (problemToDomainMap demoTwoDomains) (fileUri demoProblem)
   \<and> map fileUri (getDomainFilesFor demoEnv demoTwoDomains demoProblem)
       = [''file:///w/domain.pddl'', ''file:///w/domain2.pddl'']
   \<and> getDomainFileFor demoEnv demoTwoDomains demoProblem = None
   \<and> map fileUri (getDomainFilesFor demoEnv demoWorkspace demoProblem) = [''file:///w/domain.pddl'']
   \<and> map_option fileUri (getDomainFileFor demoEnv demoWorkspace demoProblem)
       = Some ''file:///w/domain.pddl''"
proof -
  have a: "\<not> Map_has (problemToDomainMap demoTwoDomains) (fileUri demoProblem)"
    by code_simp
  have b: "map fileUri (getDomainFilesFor demoEnv demoTwoDomains demoProblem)
       = [''file:///w/domain.pddl'', ''file:///w/domain2.pddl'']"
    by code_simp
  have c: "map fileUri (getDomainFilesFor demoEnv demoWorkspace demoProblem) = [''file:///w/domain.pddl'']"
    by code_simp
  have d: "map_option fileUri (getDomainFileFor demoEnv demoWorkspace demoProblem)
       = Some ''file:///w/domain.pddl''"
    by code_simp
  have "length (map fileUri (getDomainFilesFor demoEnv demoTwoDomains demoProblem)) = 2"
    by (simp only: b) simp
  then have "length (getDomainFilesFor demoEnv demoTwoDomains demoProblem) \<noteq> 1"
    by simp
  with getDomainFileFor_needs_one_candidate [OF a, of demoEnv]
  have "getDomainFileFor demoEnv demoTwoDomains demoProblem = None"
    by blast
  with a b c d show ?thesis by blast
qed

subsection \<open>The problem of a plan and of a happenings file\<close>

lemma find_filter: "find P (filter Q xs) = find (\<lambda>x. Q x \<and> P x) xs"
  by (induction xs) auto

text \<open>
  C5, as the spec states it, fails for happenings files: \<open>getProblemFileForHappenings\<close>
  never reads the plan-to-problem map. Here the happenings file is explicitly associated
  to the second problem, which the workspace holds, and the lookup returns the first
  problem, found by name.
\<close>

theorem happenings_lookup_ignores_association:
  "isHappenings demoHappenings
   \<and> Map_get (planToProblemMap demoHappeningsWorkspace) (fileUri demoHappenings)
       = Some ''file:///w/problem2.pddl''
   \<and> getFileInfo demoEnv demoHappeningsWorkspace ''file:///w/problem2.pddl'' = Some demoProblem2
   \<and> getProblemFileForHappenings demoEnv demoHappeningsWorkspace demoHappenings
       = Some demoProblem
   \<and> demoProblem \<noteq> demoProblem2"
  by code_simp

text \<open>
  C5, amended. For a plan file the lookup has two tiers: when the plan-to-problem map has
  an entry for the plan's URI, the result is the file stored under the associated URI
  (none when the workspace holds no such file), and only when there is no entry is it the
  first problem file of the plan's folder whose name equals the plan's problem name up to
  case. For a happenings file the lookup has the second tier only.
\<close>

theorem problem_lookup_tiers:
  "(Map_get (planToProblemMap ws) (fileUri planInfo) = Some problemFileUri \<longrightarrow>
      getProblemFileForPlan env ws planInfo = getFileInfo env ws problemFileUri)
   \<and> (Map_get (planToProblemMap ws) (fileUri planInfo) = None \<longrightarrow>
      getProblemFileForPlan env ws planInfo
        = (case Map_get (folders ws) (getFolderPath env (fileUri planInfo)) of
             None \<Rightarrow> None
           | Some folder \<Rightarrow>
               find (\<lambda>p. isProblem p \<and> lowerCaseEquals (name p) (problemName planInfo))
                 (Map_values folder)))
   \<and> getProblemFileForHappenings env ws happeningsInfo
        = (case Map_get (folders ws) (getFolderPath env (fileUri happeningsInfo)) of
             None \<Rightarrow> None
           | Some folder \<Rightarrow>
               find (\<lambda>p. isProblem p \<and> lowerCaseEquals (name p) (problemName happeningsInfo))
                 (Map_values folder))"
  by (simp add: getProblemFileForPlan_def getProblemFileForHappenings_def getFolderOf_def
        getProblemFileWithName_def find_filter Map_has_def Map_get_def split: option.splits)

theorem problem_lookup_tiers_witness:
  "Map_get (planToProblemMap demoHappeningsWorkspace) (fileUri demoPlan)
       = Some ''file:///w/problem2.pddl''
   \<and> getProblemFileForPlan demoEnv demoHappeningsWorkspace demoPlan = Some demoProblem2
   \<and> Map_get (planToProblemMap demoWorkspace) (fileUri demoPlan) = None
   \<and> getProblemFileForPlan demoEnv demoWorkspace demoPlan = Some demoProblem"
proof -
  have a: "Map_get (planToProblemMap demoHappeningsWorkspace) (fileUri demoPlan)
       = Some ''file:///w/problem2.pddl''"
    by code_simp
  have b: "getFileInfo demoEnv demoHappeningsWorkspace ''file:///w/problem2.pddl''
       = Some demoProblem2"
    by code_simp
  have c: "Map_get (planToProblemMap demoWorkspace) (fileUri demoPlan) = None"
    by code_simp
  have d: "(case Map_get (folders demoWorkspace) (getFolderPath demoEnv (fileUri demoPlan)) of
             None \<Rightarrow> None
           | Some folder \<Rightarrow>
               find (\<lambda>p. isProblem p \<and> lowerCaseEquals (name p) (problemName demoPlan))
                 (Map_values folder)) = Some demoProblem"
    by code_simp
  show ?thesis
    using a b c d
      problem_lookup_tiers [of demoHappeningsWorkspace demoPlan "''file:///w/problem2.pddl''" demoEnv]
      problem_lookup_tiers [of demoWorkspace demoPlan "''file:///w/problem2.pddl''" demoEnv]
    by simp
qed

subsection \<open>Facts about the maps\<close>

lemma map_of_Map_set: "map_of (Map_set k v m) = (map_of m)(k \<mapsto> v)"
  by (induction m) (auto simp add: fun_eq_iff)

lemma map_of_Map_delete: "map_of (Map_delete k m) = (map_of m)(k := None)"
  by (induction m) (auto simp add: Map_delete_def fun_eq_iff)

lemma map_of_Map_modify:
  "map_of (Map_modify k f m) k' = (if k' = k then map_option f (map_of m k) else map_of m k')"
  by (induction m) auto

lemma keys_Map_modify: "map fst (Map_modify k f m) = map fst m"
  by (induction m) auto

lemma keys_Map_set:
  "map fst (Map_set k v m) = (if k \<in> set (map fst m) then map fst m else map fst m @ [k])"
  by (induction m) auto

lemma in_Map_set: "(a, b) \<in> set (Map_set k v m) \<Longrightarrow> (a, b) = (k, v) \<or> (a, b) \<in> set m"
  by (induction m) (auto split: if_splits)

lemma in_Map_delete: "(a, b) \<in> set (Map_delete k m) \<Longrightarrow> (a, b) \<in> set m \<and> a \<noteq> k"
  by (simp add: Map_delete_def)

lemma in_Map_modify:
  "(a, b) \<in> set (Map_modify k f m) \<Longrightarrow>
     (a, b) \<in> set m \<or> (a = k \<and> (\<exists>b0. map_of m k = Some b0 \<and> b = f b0))"
  by (induction m) (auto split: if_splits)

lemma fold_preserves:
  assumes "\<And>x w. I w \<Longrightarrow> I (f x w)" and "I w"
  shows "I (fold f xs w)"
  using assms(2) by (induction xs arbitrary: w) (auto intro: assms(1))

subsection \<open>The UPDATED events of a workspace\<close>

lemma emitInv_cong:
  "emitted ws' = emitted ws \<Longrightarrow> lastVersionUpdateEmitted ws' = lastVersionUpdateEmitted ws
     \<Longrightarrow> emitInv ws' = emitInv ws"
  by (simp add: emitInv_def updatedPairs_def)

lemma emitInv_new: "emitInv newWorkspace"
  by (simp add: emitInv_def updatedPairs_def newWorkspace_def)

lemma emitInv_emit_other:
  "symbol \<noteq> UPDATED \<Longrightarrow> emitInv ws \<Longrightarrow> emitInv (emit ws symbol fileInfo)"
  by (simp add: emitInv_def updatedPairs_def emit_def)

lemma emitInv_emit_UPDATED:
  assumes "emitInv ws"
    and "\<forall>l. Map_get (lastVersionUpdateEmitted ws) (fileUri fileInfo) = Some l
           \<longrightarrow> l < fileVersion fileInfo"
  shows "emitInv (emit (ws\<lparr>lastVersionUpdateEmitted :=
            Map_set (fileUri fileInfo) (fileVersion fileInfo) (lastVersionUpdateEmitted ws)\<rparr>)
            UPDATED fileInfo)"
proof -
  let ?u = "fileUri fileInfo" and ?v = "fileVersion fileInfo"
  have fresh: "(?u, ?v) \<notin> set (updatedPairs ws)"
  proof
    assume "(?u, ?v) \<in> set (updatedPairs ws)"
    with assms(1) obtain l where "Map_get (lastVersionUpdateEmitted ws) ?u = Some l" "?v \<le> l"
      by (fastforce simp add: emitInv_def)
    with assms(2) show False by fastforce
  qed
  have bound: "\<exists>l. Map_get (Map_set ?u ?v (lastVersionUpdateEmitted ws)) (fst p) = Some l
                 \<and> snd p \<le> l"
    if "p \<in> set (updatedPairs ws)" for p
  proof -
    from assms(1) that obtain l
      where l: "Map_get (lastVersionUpdateEmitted ws) (fst p) = Some l" "snd p \<le> l"
      by (fastforce simp add: emitInv_def)
    show ?thesis
    proof (cases "fst p = ?u")
      case True
      with l assms(2) have "snd p \<le> ?v" by fastforce
      with True show ?thesis by (simp add: Map_get_def map_of_Map_set)
    next
      case False
      with l show ?thesis by (simp add: Map_get_def map_of_Map_set)
    qed
  qed
  show ?thesis
    using assms(1) fresh bound
    by (auto simp add: emitInv_def updatedPairs_def emit_def Map_get_def map_of_Map_set)
qed

lemma emitInv_emitIfNew: "emitInv ws \<Longrightarrow> emitInv (emitIfNew ws symbol fileInfo)"
  by (cases "symbol = UPDATED")
     (auto simp add: emitIfNew_def emitInv_emit_other intro!: emitInv_emit_UPDATED
        split: option.splits)

lemma emitInv_inFolder [simp]: "emitInv (inFolder folderPath g ws) = emitInv ws"
  by (rule emitInv_cong) (simp_all add: inFolder_def)

lemma emitInv_upsertFolder [simp]: "emitInv (upsertFolder ws folderPath) = emitInv ws"
  by (rule emitInv_cong) (simp_all add: upsertFolder_def)

lemma emitInv_scheduleParsing [simp]: "emitInv (scheduleParsing ws) = emitInv ws"
  by (rule emitInv_cong) (simp_all add: scheduleParsing_def)

lemma emitInv_parsingTimeout [simp]: "emitInv (ws\<lparr>parsingTimeout := b\<rparr>) = emitInv ws"
  by (rule emitInv_cong) simp_all

lemma emitInv_associateProblemToDomain [simp]:
  "emitInv (associateProblemToDomain ws p d) = emitInv ws"
  by (rule emitInv_cong) (simp_all add: associateProblemToDomain_def)

lemma emitInv_associatePlanToProblem [simp]:
  "emitInv (associatePlanToProblem ws u p) = emitInv ws"
  by (rule emitInv_cong) (simp_all add: associatePlanToProblem_def)

lemma emitInv_invalidateDiagnostics:
  "emitInv ws \<Longrightarrow> emitInv (invalidateDiagnostics env ws fileInfo)"
  by (simp add: invalidateDiagnostics_def emitInv_emitIfNew)

lemma emitInv_markPlansAsDirty:
  "emitInv ws \<Longrightarrow> emitInv (markPlansAsDirty env ws problemInfo)"
  unfolding markPlansAsDirty_def Let_def
  by (intro fold_preserves [where I = emitInv] emitInv_invalidateDiagnostics)

lemma emitInv_markProblemsAsDirty:
  "emitInv ws \<Longrightarrow> emitInv (markProblemsAsDirty env ws domainInfo)"
  unfolding markProblemsAsDirty_def
  by (intro fold_preserves [where I = emitInv] emitInv_markPlansAsDirty
        emitInv_invalidateDiagnostics)

lemma emitInv_insertFile:
  "emitInv ws \<Longrightarrow> emitInv (snd (insertFile env ws folderPath uri language ver txt))"
  by (simp add: insertFile_def Let_def emitInv_emitIfNew emitInv_markProblemsAsDirty
        emitInv_markPlansAsDirty)

lemma emitInv_upsertFile:
  "emitInv ws \<Longrightarrow> emitInv (snd (upsertFile env ws uri language ver txt force))"
  by (simp add: upsertFile_def Let_def emitInv_insertFile split: option.splits prod.splits)

lemma emitInv_reParseFile:
  "emitInv ws \<Longrightarrow> emitInv (snd (reParseFile env ws fileInfo))"
  by (simp add: reParseFile_def Let_def emitInv_emitIfNew)

lemma emitInv_upsertAndParseFile:
  "emitInv ws \<Longrightarrow> emitInv (snd (upsertAndParseFile env ws uri language ver txt))"
proof -
  assume start: "emitInv ws"
  obtain fileInfo ws1 where u: "upsertFile env ws uri language ver txt False = (fileInfo, ws1)"
    by (cases "upsertFile env ws uri language ver txt False")
  have "emitInv ws1"
    using emitInv_upsertFile [OF start, of env uri language ver "txt" False] u by simp
  then show ?thesis
    by (simp add: upsertAndParseFile_def u emitInv_reParseFile)
qed

lemma emitInv_parseAllDirty: "emitInv ws \<Longrightarrow> emitInv (parseAllDirty env ws)"
  unfolding parseAllDirty_def Let_def
  by (rule fold_preserves [where I = emitInv]) (simp_all add: emitInv_reParseFile)

lemma emitInv_removeFile:
  "emitInv ws \<Longrightarrow> emitInv (snd (removeFile env ws uri removeAllReferences))"
  by (simp add: removeFile_def Let_def emitInv_emitIfNew split: option.splits)

lemma emitInv_step: "emitInv ws \<Longrightarrow> emitInv (step env operation ws)"
  by (cases operation)
     (simp_all add: emitInv_upsertFile emitInv_upsertAndParseFile emitInv_reParseFile
        emitInv_parseAllDirty emitInv_removeFile emitInv_invalidateDiagnostics
        emitInv_markProblemsAsDirty emitInv_markPlansAsDirty split: option.splits)

lemma emitInv_run: "emitInv ws \<Longrightarrow> emitInv (run env ops ws)"
  unfolding run_def by (rule fold_preserves [where I = emitInv]) (simp_all add: emitInv_step)

subsection \<open>Well-formed folders\<close>

lemma wellFormed_new: "wellFormed env newWorkspace"
  by (simp add: wellFormed_def newWorkspace_def)

lemma wellFormed_cong: "folders ws' = folders ws \<Longrightarrow> wellFormed env ws' = wellFormed env ws"
  by (simp add: wellFormed_def)

lemma folders_emitIfNew [simp]: "folders (emitIfNew ws symbol fileInfo) = folders ws"
  by (simp add: emitIfNew_def emit_def split: option.splits)

lemma wellFormed_emitIfNew [simp]: "wellFormed env (emitIfNew ws symbol fileInfo) = wellFormed env ws"
  by (rule wellFormed_cong) simp

lemma wellFormed_scheduleParsing [simp]: "wellFormed env (scheduleParsing ws) = wellFormed env ws"
  by (rule wellFormed_cong) (simp add: scheduleParsing_def)

lemma wellFormed_parsingTimeout [simp]: "wellFormed env (ws\<lparr>parsingTimeout := b\<rparr>) = wellFormed env ws"
  by (rule wellFormed_cong) simp

lemma wellFormed_associateProblemToDomain [simp]: "wellFormed env (associateProblemToDomain ws p d) = wellFormed env ws"
  by (rule wellFormed_cong) (simp add: associateProblemToDomain_def)

lemma wellFormed_associatePlanToProblem [simp]: "wellFormed env (associatePlanToProblem ws u p) = wellFormed env ws"
  by (rule wellFormed_cong) (simp add: associatePlanToProblem_def)

lemma wellFormed_lookup:
  assumes "wellFormed env ws" and "Map_get (folders ws) folderPath = Some folder"
  shows "wellFormedFolder env folderPath folder"
proof -
  from assms(2) have "(folderPath, folder) \<in> set (folders ws)"
    by (simp add: Map_get_def map_of_SomeD)
  with assms(1) show ?thesis by (fastforce simp add: wellFormed_def)
qed

lemma wellFormedFolder_get:
  assumes "wellFormedFolder env folderPath folder" and "map_of folder uri = Some f"
  shows "fileUri f = uri \<and> getFolderPath env uri = folderPath \<and> uriScheme env uri \<noteq> ''git''"
proof -
  from assms(2) have "(uri, f) \<in> set folder" by (rule map_of_SomeD)
  with assms(1) show ?thesis by (fastforce simp add: wellFormedFolder_def)
qed

lemma wellFormed_getFileInfo:
  assumes "wellFormed env ws" and "getFileInfo env ws uri = Some f"
  shows "fileUri f = uri \<and> uriScheme env uri \<noteq> ''git''"
proof -
  from assms(2) obtain folder
    where a: "Map_get (folders ws) (getFolderPath env uri) = Some folder"
      and b: "map_of folder uri = Some f"
    by (auto simp add: getFileInfo_def Folder_get_def Map_get_def split: option.splits)
  from wellFormedFolder_get [OF wellFormed_lookup [OF assms(1) a] b] show ?thesis by simp
qed

lemma wellFormed_upsertFolder: "wellFormed env ws \<Longrightarrow> wellFormed env (upsertFolder ws folderPath)"
proof -
  assume w: "wellFormed env ws"
  show ?thesis
  proof (cases "Map_has (folders ws) folderPath")
    case True
    with w show ?thesis by (simp add: upsertFolder_def)
  next
    case False
    have "wellFormedFolder env (fst e) (snd e)" if "e \<in> set (Map_set folderPath [] (folders ws))" for e
    proof -
      from that have "(fst e, snd e) \<in> set (Map_set folderPath [] (folders ws))" by simp
      from in_Map_set [OF this] w show ?thesis by (fastforce simp add: wellFormed_def wellFormedFolder_def)
    qed
    with w False show ?thesis by (simp add: upsertFolder_def wellFormed_def keys_Map_set)
  qed
qed

lemma wellFormed_inFolder:
  assumes "wellFormed env ws"
    and "\<And>folder. wellFormedFolder env folderPath folder \<Longrightarrow> wellFormedFolder env folderPath (g folder)"
  shows "wellFormed env (inFolder folderPath g ws)"
proof -
  have "wellFormedFolder env (fst e) (snd e)" if "e \<in> set (Map_modify folderPath g (folders ws))" for e
  proof -
    from that have "(fst e, snd e) \<in> set (Map_modify folderPath g (folders ws))" by simp
    from in_Map_modify [OF this]
    consider "(fst e, snd e) \<in> set (folders ws)"
      | b0 where "fst e = folderPath" "map_of (folders ws) folderPath = Some b0" "snd e = g b0"
      by blast
    then show ?thesis
    proof cases
      case 1
      with assms(1) show ?thesis by (fastforce simp add: wellFormed_def)
    next
      case 2
      from 2(2) have "wellFormedFolder env folderPath b0"
        using wellFormed_lookup [OF assms(1)] by (simp add: Map_get_def)
      with 2 assms(2) show ?thesis by simp
    qed
  qed
  with assms(1) show ?thesis
    by (simp add: wellFormed_def inFolder_def keys_Map_modify)
qed

lemma wellFormedFolder_add:
  assumes "wellFormedFolder env folderPath folder" and "getFolderPath env (fileUri f) = folderPath"
  shows "wellFormedFolder env folderPath (Folder_add env f folder)"
proof (cases "uriScheme env (fileUri f) = ''git''")
  case True
  with assms(1) show ?thesis by (simp add: Folder_add_def)
next
  case False
  have "fileUri (snd e) = fst e \<and> getFolderPath env (fst e) = folderPath
          \<and> uriScheme env (fst e) \<noteq> ''git''"
    if "e \<in> set (Map_set (fileUri f) f folder)" for e
  proof -
    from that have "(fst e, snd e) \<in> set (Map_set (fileUri f) f folder)" by simp
    from in_Map_set [OF this] assms False show ?thesis
      by (fastforce simp add: wellFormedFolder_def)
  qed
  with assms(1) False show ?thesis
    by (simp add: wellFormedFolder_def Folder_add_def keys_Map_set)
qed

lemma wellFormedFolder_remove:
  "wellFormedFolder env folderPath folder \<Longrightarrow> wellFormedFolder env folderPath (snd (Folder_remove f folder))"
  by (auto simp add: wellFormedFolder_def Folder_remove_def Map_delete_def distinct_map_filter)

lemma wellFormedFolder_modify:
  assumes "wellFormedFolder env folderPath folder"
    and "\<And>f0. map_of folder uri = Some f0 \<Longrightarrow> fileUri (h f0) = fileUri f0"
  shows "wellFormedFolder env folderPath (Map_modify uri h folder)"
proof -
  have "fileUri (snd e) = fst e \<and> getFolderPath env (fst e) = folderPath
          \<and> uriScheme env (fst e) \<noteq> ''git''"
    if "e \<in> set (Map_modify uri h folder)" for e
  proof -
    from that have "(fst e, snd e) \<in> set (Map_modify uri h folder)" by simp
    from in_Map_modify [OF this]
    consider "(fst e, snd e) \<in> set folder"
      | b0 where "fst e = uri" "map_of folder uri = Some b0" "snd e = h b0"
      by blast
    then show ?thesis
    proof cases
      case 1
      with assms(1) show ?thesis by (fastforce simp add: wellFormedFolder_def)
    next
      case 2
      from wellFormedFolder_get [OF assms(1) 2(2)] assms(2) [OF 2(2)] 2 show ?thesis by simp
    qed
  qed
  with assms(1) show ?thesis
    by (simp add: wellFormedFolder_def keys_Map_modify)
qed

lemma fileUri_parseFile [simp]: "fileUri (parseFile env uri language ver t) = uri"
  by (simp add: parseFile_def split: PddlLanguage.splits option.splits prod.splits)

lemma wellFormed_invalidateDiagnostics: "wellFormed env ws \<Longrightarrow> wellFormed env (invalidateDiagnostics env ws fileInfo)"
  by (simp add: invalidateDiagnostics_def wellFormed_inFolder wellFormedFolder_modify)

lemma wellFormed_markPlansAsDirty: "wellFormed env ws \<Longrightarrow> wellFormed env (markPlansAsDirty env ws problemInfo)"
  unfolding markPlansAsDirty_def Let_def
  by (intro fold_preserves [where I = "wellFormed env"] wellFormed_invalidateDiagnostics)

lemma wellFormed_markProblemsAsDirty: "wellFormed env ws \<Longrightarrow> wellFormed env (markProblemsAsDirty env ws domainInfo)"
  unfolding markProblemsAsDirty_def
  by (intro fold_preserves [where I = "wellFormed env"] wellFormed_markPlansAsDirty wellFormed_invalidateDiagnostics)

lemma wellFormed_insertFile:
  assumes "wellFormed env ws"
  shows "wellFormed env (snd (insertFile env ws (getFolderPath env uri) uri language ver t))"
proof -
  have "wellFormed env (inFolder (getFolderPath env uri)
                 (Folder_add env (parseFile env uri language ver t)) ws)"
    by (rule wellFormed_inFolder [OF assms]) (simp add: wellFormedFolder_add)
  then show ?thesis
    by (simp add: insertFile_def Let_def wellFormed_markProblemsAsDirty wellFormed_markPlansAsDirty)
qed

lemma wellFormed_upsertFile:
  assumes "wellFormed env ws"
  shows "wellFormed env (snd (upsertFile env ws uri language ver t force))"
proof -
  let ?ws1 = "upsertFolder ws (getFolderPath env uri)"
  have w1: "wellFormed env ?ws1" by (rule wellFormed_upsertFolder [OF assms])
  show ?thesis
  proof (cases "getFileInfo env ?ws1 uri")
    case None
    then show ?thesis
      by (simp add: upsertFile_def Let_def wellFormed_insertFile [OF w1])
  next
    case (Some fileInfo)
    obtain fileInfo' newer where u: "FileInfo_update fileInfo ver t force = (fileInfo', newer)"
      by (cases "FileInfo_update fileInfo ver t force")
    then have same: "fileUri fileInfo' = fileUri fileInfo"
      by (auto simp add: FileInfo_update_def Let_def split: if_splits)
    from wellFormed_getFileInfo [OF w1 Some] have own: "fileUri fileInfo = uri" by simp
    have "wellFormed env (inFolder (getFolderPath env uri) (Map_modify uri (\<lambda>_. fileInfo')) ?ws1)"
    proof (rule wellFormed_inFolder [OF w1])
      fix folder
      assume f: "wellFormedFolder env (getFolderPath env uri) folder"
      show "wellFormedFolder env (getFolderPath env uri) (Map_modify uri (\<lambda>_. fileInfo') folder)"
      proof (rule wellFormedFolder_modify [OF f])
        fix f0
        assume "map_of folder uri = Some f0"
        from wellFormedFolder_get [OF f this] same own show "fileUri fileInfo' = fileUri f0" by simp
      qed
    qed
    with Some u show ?thesis
      by (simp add: upsertFile_def Let_def)
  qed
qed

lemma wellFormed_reParseFile:
  assumes "wellFormed env ws"
  shows "wellFormed env (snd (reParseFile env ws fileInfo))"
proof -
  let ?P = "getFolderPath env (fileUri fileInfo)"
  have w1: "wellFormed env (upsertFolder ws ?P)" by (rule wellFormed_upsertFolder [OF assms])
  have w2: "wellFormed env (inFolder ?P (\<lambda>folder. snd (Folder_remove fileInfo folder))
                     (upsertFolder ws ?P))"
    by (rule wellFormed_inFolder [OF w1]) (rule wellFormedFolder_remove)
  have "wellFormed env (inFolder ?P
                 (Folder_add env (parseFile env (fileUri fileInfo) (getLanguage fileInfo)
                    (fileVersion fileInfo) (fileText fileInfo)))
                 (inFolder ?P (\<lambda>folder. snd (Folder_remove fileInfo folder))
                     (upsertFolder ws ?P)))"
    by (rule wellFormed_inFolder [OF w2]) (simp add: wellFormedFolder_add)
  then show ?thesis
    by (simp add: reParseFile_def Let_def)
qed

lemma wellFormed_upsertAndParseFile:
  assumes "wellFormed env ws"
  shows "wellFormed env (snd (upsertAndParseFile env ws uri language ver t))"
proof -
  obtain fileInfo ws1 where u: "upsertFile env ws uri language ver t False = (fileInfo, ws1)"
    by (cases "upsertFile env ws uri language ver t False")
  have "wellFormed env ws1"
    using wellFormed_upsertFile [OF assms, of uri language ver t False] u by simp
  then show ?thesis
    by (simp add: upsertAndParseFile_def u wellFormed_reParseFile)
qed

lemma wellFormed_parseAllDirty: "wellFormed env ws \<Longrightarrow> wellFormed env (parseAllDirty env ws)"
  unfolding parseAllDirty_def Let_def
  by (rule fold_preserves [where I = "wellFormed env"]) (simp_all add: wellFormed_reParseFile)

lemma wellFormed_removeFile:
  assumes "wellFormed env ws"
  shows "wellFormed env (snd (removeFile env ws uri removeAllReferences))"
proof -
  have "wellFormed env (inFolder folderPath (\<lambda>f. snd (Folder_remove documentInfo f))
                 (emitIfNew ws REMOVING documentInfo))" for folderPath documentInfo
    by (rule wellFormed_inFolder) (simp_all add: assms wellFormedFolder_remove)
  with assms show ?thesis
    by (simp add: removeFile_def Let_def split: option.splits)
qed

lemma wellFormed_step: "wellFormed env ws \<Longrightarrow> wellFormed env (step env operation ws)"
  by (cases operation)
     (simp_all add: wellFormed_upsertFile wellFormed_upsertAndParseFile wellFormed_reParseFile wellFormed_parseAllDirty
        wellFormed_removeFile wellFormed_invalidateDiagnostics wellFormed_markProblemsAsDirty wellFormed_markPlansAsDirty
        split: option.splits)

lemma wellFormed_run: "wellFormed env ws \<Longrightarrow> wellFormed env (run env ops ws)"
  unfolding run_def by (rule fold_preserves [where I = "wellFormed env"]) (simp_all add: wellFormed_step)

lemma getFileInfo_upsertFolder [simp]:
  "getFileInfo env (upsertFolder ws folderPath) uri = getFileInfo env ws uri"
  by (auto simp add: getFileInfo_def upsertFolder_def Map_get_def Map_has_def map_of_Map_set
        Folder_get_def split: option.splits)

lemma getFileInfo_emitIfNew [simp]:
  "getFileInfo env (emitIfNew ws symbol fileInfo) uri = getFileInfo env ws uri"
  by (simp add: getFileInfo_def)

subsection \<open>Files under the git scheme\<close>

text \<open>
  C9. \<open>Folder.add\<close> does not store a file info whose URI has the \<open>git\<close> scheme. So after
  every sequence of operations no key and no file of a folder's map has such a URI, none
  is in \<open>getAllFiles\<close>, and \<open>getFileInfo\<close> finds none; still \<open>upsertFile\<close> on such a URI
  returns the parsed file info, and the workspace does not hold it afterwards.
\<close>

theorem git_files_are_never_stored:
  "(uriScheme env (fileUri fileInfo) = ''git'' \<longrightarrow> Folder_add env fileInfo folder = folder)
   \<and> (\<forall>folderEntry \<in> set (folders (run env ops newWorkspace)).
        \<forall>fileEntry \<in> set (snd folderEntry).
          uriScheme env (fst fileEntry) \<noteq> ''git''
          \<and> uriScheme env (fileUri (snd fileEntry)) \<noteq> ''git'')
   \<and> (\<forall>f \<in> set (getAllFiles (run env ops newWorkspace)). uriScheme env (fileUri f) \<noteq> ''git'')
   \<and> (uriScheme env uri = ''git'' \<longrightarrow>
        getFileInfo env (run env ops newWorkspace) uri = None
        \<and> fst (upsertFile env (run env ops newWorkspace) uri language ver t force)
            = parseFile env uri language ver t
        \<and> getFileInfo env (snd (upsertFile env (run env ops newWorkspace) uri language ver t force))
            uri = None)"
proof -
  let ?ws = "run env ops newWorkspace"
  have w: "wellFormed env ?ws" by (rule wellFormed_run [OF wellFormed_new])
  have none: "getFileInfo env ws' uri = None" if "wellFormed env ws'" "uriScheme env uri = ''git''" for ws'
    using wellFormed_getFileInfo [OF that(1), of uri] that(2)
    by (cases "getFileInfo env ws' uri") auto
  have stored: "uriScheme env (fst fileEntry) \<noteq> ''git''
          \<and> uriScheme env (fileUri (snd fileEntry)) \<noteq> ''git''"
    if "folderEntry \<in> set (folders ?ws)" "fileEntry \<in> set (snd folderEntry)"
    for folderEntry fileEntry
    using w that by (fastforce simp add: wellFormed_def wellFormedFolder_def)
  have all: "uriScheme env (fileUri f) \<noteq> ''git''" if "f \<in> set (getAllFiles ?ws)" for f
    using that stored by (fastforce simp add: getAllFiles_def Map_values_def)
  have upsert: "fst (upsertFile env ?ws uri language ver t force) = parseFile env uri language ver t"
    if "uriScheme env uri = ''git''"
    using none [OF w that] by (simp add: upsertFile_def Let_def insertFile_def)
  have after: "getFileInfo env (snd (upsertFile env ?ws uri language ver t force)) uri = None"
    if "uriScheme env uri = ''git''"
    by (rule none [OF wellFormed_upsertFile [OF w] that])
  show ?thesis
    using none [OF w] stored all upsert after
    by (simp add: Folder_add_def)
qed

theorem git_files_are_never_stored_witness:
  "uriScheme demoEnv ''git:/w/domain.pddl'' = ''git''
   \<and> map fileUri (getAllFiles (run demoEnv gitOps newWorkspace))
       = [''file:///w/problem.pddl'', ''file:///w/plan.plan'', ''file:///w/domain.pddl'']
   \<and> getFileInfo demoEnv (run demoEnv gitOps newWorkspace) ''git:/w/domain.pddl'' = None
   \<and> fst (upsertFile demoEnv (run demoEnv gitOps newWorkspace) ''git:/w/domain.pddl'' PDDL 3
            domainText False)
       = parseFile demoEnv ''git:/w/domain.pddl'' PDDL 3 domainText"
proof -
  have a: "uriScheme demoEnv ''git:/w/domain.pddl'' = ''git''"
    by code_simp
  have b: "map fileUri (getAllFiles (run demoEnv gitOps newWorkspace))
       = [''file:///w/problem.pddl'', ''file:///w/plan.plan'', ''file:///w/domain.pddl'']"
    by code_simp
  show ?thesis
    using a b
      git_files_are_never_stored [of demoEnv _ _ gitOps "''git:/w/domain.pddl''" PDDL 3
        domainText False]
    by simp
qed

subsection \<open>What invalidation changes\<close>

lemma asParsed_simps [simp]:
  "fileUri (asParsed f) = fileUri f"
  "kind (asParsed f) = kind f"
  "fileText (asParsed f) = fileText f"
  "fileVersion (asParsed f) = fileVersion f"
  "fileStatus (asParsed f) = Parsed"
  "asParsed (asParsed f) = asParsed f"
  by (simp_all add: asParsed_def)

lemma getProblemFiles_stored:
  "getProblemFiles env ws d =
     filter (\<lambda>p. isProblem p \<and> lowerCaseEquals (domainName p) (name d))
       (stored ws (getFolderPath env (fileUri d)))"
  by (simp add: getProblemFiles_def getProblemFilesFor_def stored_def split: option.splits)

lemma getPlanFiles_stored:
  "getPlanFiles env ws p =
     filter (\<lambda>q. isPlan q \<and> lowerCaseEquals (problemName q) (name p)
                \<and> lowerCaseEquals (domainName q) (domainName p))
       (stored ws (getFolderPath env (fileUri p)))"
  by (simp add: getPlanFiles_def stored_def split: option.splits)

lemma getHappeningsFiles_stored:
  "getHappeningsFiles env ws p =
     filter (\<lambda>q. isHappenings q \<and> lowerCaseEquals (problemName q) (name p)
                \<and> lowerCaseEquals (domainName q) (domainName p))
       (stored ws (getFolderPath env (fileUri p)))"
  by (simp add: getHappeningsFiles_def stored_def split: option.splits)

lemma mem_stored:
  assumes "wellFormed env ws"
  shows "f \<in> set (stored ws folderPath)
           \<longleftrightarrow> getFileInfo env ws (fileUri f) = Some f
                \<and> getFolderPath env (fileUri f) = folderPath"
proof (cases "Map_get (folders ws) folderPath")
  case None
  then show ?thesis
    by (auto simp add: stored_def getFileInfo_def)
next
  case (Some folder)
  from wellFormed_lookup [OF assms Some] have wff: "wellFormedFolder env folderPath folder" .
  show ?thesis
  proof
    assume "f \<in> set (stored ws folderPath)"
    with Some obtain k where k: "(k, f) \<in> set folder"
      by (auto simp add: stored_def Map_values_def)
    with wff have a: "fileUri f = k" "getFolderPath env k = folderPath"
      and d: "distinct (map fst folder)"
      by (auto simp add: wellFormedFolder_def)
    from d k have "map_of folder k = Some f" by simp
    with a Some show "getFileInfo env ws (fileUri f) = Some f
                \<and> getFolderPath env (fileUri f) = folderPath"
      by (simp add: getFileInfo_def Folder_get_def Map_get_def)
  next
    assume "getFileInfo env ws (fileUri f) = Some f
                \<and> getFolderPath env (fileUri f) = folderPath"
    with Some have "map_of folder (fileUri f) = Some f"
      by (auto simp add: getFileInfo_def Folder_get_def Map_get_def)
    then have "(fileUri f, f) \<in> set folder" by (rule map_of_SomeD)
    with Some show "f \<in> set (stored ws folderPath)"
      by (force simp add: stored_def Map_values_def)
  qed
qed

lemma touches_refl: "touches env {} ws ws"
  by (simp add: touches_def)

lemma touches_trans:
  "touches env U ws ws' \<Longrightarrow> touches env V ws' ws'' \<Longrightarrow> touches env (U \<union> V) ws ws''"
  by (auto simp add: touches_def option.map_comp comp_def)

lemma getFileInfo_modify:
  "getFileInfo env (inFolder (getFolderPath env k) (Map_modify k h) ws) u
     = (if u = k then map_option h (getFileInfo env ws u) else getFileInfo env ws u)"
  by (cases "getFolderPath env u = getFolderPath env k")
     (auto simp add: getFileInfo_def inFolder_def Map_get_def Folder_get_def map_of_Map_modify
        split: option.splits)

lemma asParsed_fun: "(\<lambda>f. f\<lparr>fileStatus := Parsed\<rparr>) = asParsed"
  by (simp add: fun_eq_iff asParsed_def)

lemma touches_invalidateDiagnostics:
  "touches env {fileUri f} ws (invalidateDiagnostics env ws f)"
  by (simp add: touches_def invalidateDiagnostics_def getFileInfo_modify asParsed_fun)

lemma touches_fold_invalidateDiagnostics:
  "touches env (fileUri ` set fs) ws (fold (\<lambda>f w. invalidateDiagnostics env w f) fs ws)"
proof (induction fs arbitrary: ws)
  case Nil
  show ?case by (simp add: touches_refl)
next
  case (Cons f fs)
  from touches_trans [OF touches_invalidateDiagnostics Cons.IH]
  show ?case by simp
qed

lemma touches_sim: "touches env U ws ws' \<Longrightarrow> sim env ws ws'"
  by (auto simp add: touches_def sim_def option.map_comp comp_def)

lemma sim_refl: "sim env ws ws"
  by (simp add: sim_def)

lemma sim_trans: "sim env ws ws' \<Longrightarrow> sim env ws' ws'' \<Longrightarrow> sim env ws ws''"
  by (simp add: sim_def)

lemma sim_sym: "sim env ws ws' \<Longrightarrow> sim env ws' ws"
  by (simp add: sim_def)

lemma sim_uris_subset:
  assumes "wellFormed env ws" and "wellFormed env ws'" and "sim env ws ws'"
    and blind: "\<And>f. Q (asParsed f) = Q f"
  shows "fileUri ` set (filter Q (stored ws folderPath))
           \<subseteq> fileUri ` set (filter Q (stored ws' folderPath))"
proof
  fix u
  assume "u \<in> fileUri ` set (filter Q (stored ws folderPath))"
  then obtain f where f: "f \<in> set (stored ws folderPath)" "Q f" "u = fileUri f"
    by auto
  from f(1) have g: "getFileInfo env ws u = Some f" "getFolderPath env u = folderPath"
    by (simp_all add: mem_stored [OF assms(1)] f(3))
  from assms(3) g(1) obtain f' where f': "getFileInfo env ws' u = Some f'"
    "asParsed f' = asParsed f"
    by (auto simp add: sim_def dest!: spec [of _ u])
  from f'(2) have "fileUri (asParsed f') = fileUri (asParsed f)" by simp
  then have u': "fileUri f' = u" by (simp add: f(3))
  from f'(2) blind [of f'] blind [of f] f(2) have "Q f'" by simp
  moreover from f'(1) g(2) u' have "f' \<in> set (stored ws' folderPath)"
    by (simp add: mem_stored [OF assms(2)])
  ultimately show "u \<in> fileUri ` set (filter Q (stored ws' folderPath))"
    using u' by force
qed

lemma sim_uris:
  assumes "wellFormed env ws" and "wellFormed env ws'" and "sim env ws ws'"
    and blind: "\<And>f. Q (asParsed f) = Q f"
  shows "fileUri ` set (filter Q (stored ws' folderPath))
           = fileUri ` set (filter Q (stored ws folderPath))"
  using sim_uris_subset [where Q = Q, OF assms(1,2,3) blind, of folderPath]
        sim_uris_subset [where Q = Q, OF assms(2,1) sim_sym [OF assms(3)] blind, of folderPath]
  by blast

lemma blind_simps [simp]:
  "isProblem (asParsed f) = isProblem f"
  "isPlan (asParsed f) = isPlan f"
  "isHappenings (asParsed f) = isHappenings f"
  "name (asParsed f) = name f"
  "domainName (asParsed f) = domainName f"
  "problemName (asParsed f) = problemName f"
  by (simp_all add: asParsed_def)

lemma plan_uris_sim:
  assumes "wellFormed env ws" and "wellFormed env ws'" and "sim env ws ws'"
  shows "fileUri ` set (getPlanFiles env ws' p) = fileUri ` set (getPlanFiles env ws p)"
  unfolding getPlanFiles_stored
  by (rule sim_uris [OF assms]) simp

lemma happenings_uris_sim:
  assumes "wellFormed env ws" and "wellFormed env ws'" and "sim env ws ws'"
  shows "fileUri ` set (getHappeningsFiles env ws' p)
           = fileUri ` set (getHappeningsFiles env ws p)"
  unfolding getHappeningsFiles_stored
  by (rule sim_uris [OF assms]) simp

lemma dependents_sim:
  assumes "wellFormed env ws" and "wellFormed env ws'" and "sim env ws ws'"
  shows "dependents env ws' p = dependents env ws p"
  by (simp add: dependents_def image_Un plan_uris_sim [OF assms] happenings_uris_sim [OF assms])

lemma wellFormed_fold_invalidateDiagnostics:
  "wellFormed env ws \<Longrightarrow> wellFormed env (fold (\<lambda>f w. invalidateDiagnostics env w f) fs ws)"
  by (rule fold_preserves [where I = "wellFormed env"]) (simp_all add: wellFormed_invalidateDiagnostics)

lemma touches_markPlansAsDirty:
  assumes "wellFormed env ws"
  shows "touches env (dependents env ws p) ws (markPlansAsDirty env ws p)"
proof -
  let ?ws1 = "fold (\<lambda>f w. invalidateDiagnostics env w f) (getPlanFiles env ws p) ws"
  have t1: "touches env (fileUri ` set (getPlanFiles env ws p)) ws ?ws1"
    by (rule touches_fold_invalidateDiagnostics)
  have w1: "wellFormed env ?ws1" by (rule wellFormed_fold_invalidateDiagnostics [OF assms])
  have same: "fileUri ` set (getHappeningsFiles env ?ws1 p)
                = fileUri ` set (getHappeningsFiles env ws p)"
    by (rule happenings_uris_sim [OF assms w1 touches_sim [OF t1]])
  have t2: "touches env (fileUri ` set (getHappeningsFiles env ?ws1 p)) ?ws1
              (fold (\<lambda>f w. invalidateDiagnostics env w f) (getHappeningsFiles env ?ws1 p) ?ws1)"
    by (rule touches_fold_invalidateDiagnostics)
  from touches_trans [OF t1 t2] show ?thesis
    by (simp add: markPlansAsDirty_def Let_def dependents_def image_Un same)
qed

lemma touches_fold_problems:
  assumes "wellFormed env ws"
  shows "wellFormed env w \<Longrightarrow> sim env ws w \<Longrightarrow>
         touches env (touched env ws ps) w
           (fold (\<lambda>p w. markPlansAsDirty env (invalidateDiagnostics env w p) p) ps w)"
proof (induction ps arbitrary: w)
  case Nil
  show ?case by (simp add: touched_def touches_refl)
next
  case (Cons p ps)
  let ?w1 = "invalidateDiagnostics env w p"
  let ?w2 = "markPlansAsDirty env ?w1 p"
  have t1: "touches env {fileUri p} w ?w1" by (rule touches_invalidateDiagnostics)
  have w1: "wellFormed env ?w1" by (rule wellFormed_invalidateDiagnostics [OF Cons.prems(1)])
  have s1: "sim env ws ?w1" by (rule sim_trans [OF Cons.prems(2) touches_sim [OF t1]])
  have t2: "touches env (dependents env ws p) ?w1 ?w2"
    using touches_markPlansAsDirty [OF w1, of p] dependents_sim [OF assms w1 s1, of p]
    by simp
  have w2: "wellFormed env ?w2" by (rule wellFormed_markPlansAsDirty [OF w1])
  have s2: "sim env ws ?w2" by (rule sim_trans [OF s1 touches_sim [OF t2]])
  from touches_trans [OF touches_trans [OF t1 t2] Cons.IH [OF w2 s2]]
  show ?case
    by (simp add: touched_def Un_ac)
qed

lemma touches_markProblemsAsDirty:
  assumes "wellFormed env ws"
  shows "touches env (touched env ws (getProblemFiles env ws d)) ws (markProblemsAsDirty env ws d)"
  unfolding markProblemsAsDirty_def
  by (rule touches_fold_problems [OF assms assms sim_refl])

lemma getFileInfo_inFolder:
  "getFileInfo env (inFolder folderPath g ws) u
     = (case Map_get (folders ws) (getFolderPath env u) of
          None \<Rightarrow> None
        | Some folder \<Rightarrow> map_of (if getFolderPath env u = folderPath then g folder else folder) u)"
  by (simp add: getFileInfo_def inFolder_def Map_get_def Folder_get_def map_of_Map_modify
        split: option.splits)

lemma getFileInfo_inFolder_other:
  assumes "\<And>folder. map_of (g folder) u = map_of folder u"
  shows "getFileInfo env (inFolder folderPath g ws) u = getFileInfo env ws u"
  by (subst getFileInfo_inFolder)
     (simp add: assms getFileInfo_def Folder_get_def Map_get_def split: option.splits)

lemma getFileInfo_reParseFile_other:
  assumes "u \<noteq> fileUri fileInfo"
  shows "getFileInfo env (snd (reParseFile env ws fileInfo)) u = getFileInfo env ws u"
proof -
  have a: "map_of (snd (Folder_remove fileInfo folder)) u = map_of folder u" for folder
    using assms by (simp add: Folder_remove_def map_of_Map_delete)
  have b: "map_of (Folder_add env (parseFile env (fileUri fileInfo) language ver t) folder) u
             = map_of folder u" for folder language ver t
    using assms by (simp add: Folder_add_def map_of_Map_set)
  show ?thesis
    by (simp add: reParseFile_def Let_def getFileInfo_inFolder_other [OF a]
          getFileInfo_inFolder_other [OF b])
qed

lemma getFileInfo_fold_reParseFile_other:
  "\<forall>f \<in> set fs. fileUri f \<noteq> u \<Longrightarrow>
     getFileInfo env (fold (\<lambda>file w. snd (reParseFile env w file)) fs ws) u
       = getFileInfo env ws u"
  by (induction fs arbitrary: ws) (auto simp add: getFileInfo_reParseFile_other)

lemma getFileInfo_parseAllDirty_other:
  assumes "\<forall>f \<in> set (getAllFilesIf ws (\<lambda>f. fileStatus f = Dirty)). fileUri f \<noteq> u"
  shows "getFileInfo env (parseAllDirty env ws) u = getFileInfo env ws u"
proof -
  have "getFileInfo env (ws\<lparr>parsingTimeout := False\<rparr>) u = getFileInfo env ws u"
    by (simp add: getFileInfo_def)
  with getFileInfo_fold_reParseFile_other [OF assms, of env "ws\<lparr>parsingTimeout := False\<rparr>"]
  show ?thesis
    by (simp add: parseAllDirty_def Let_def)
qed

lemma getFileInfo_add_new:
  assumes "getFileInfo env ws (fileUri f) = None"
  shows "getFileInfo env
           (inFolder (getFolderPath env (fileUri f)) (Folder_add env f)
              (upsertFolder ws (getFolderPath env (fileUri f)))) u
         = (if u = fileUri f \<and> uriScheme env (fileUri f) \<noteq> ''git'' then Some f
            else getFileInfo env ws u)"
proof -
  let ?P = "getFolderPath env (fileUri f)"
  have has: "Map_get (folders (upsertFolder ws ?P)) ?P \<noteq> None"
    by (simp add: upsertFolder_def Map_get_def Map_has_def map_of_Map_set)
  show ?thesis
  proof (cases "u = fileUri f")
    case True
    from has obtain folder where folder: "Map_get (folders (upsertFolder ws ?P)) ?P = Some folder"
      by auto
    then have "map_of folder (fileUri f) = getFileInfo env (upsertFolder ws ?P) (fileUri f)"
      by (simp add: getFileInfo_def Folder_get_def Map_get_def)
    with assms have none: "map_of folder (fileUri f) = None" by simp
    have "getFileInfo env (inFolder ?P (Folder_add env f) (upsertFolder ws ?P)) (fileUri f)
            = map_of (Folder_add env f folder) (fileUri f)"
      by (subst getFileInfo_inFolder) (simp add: folder)
    with none assms True show ?thesis
      by (simp add: Folder_add_def map_of_Map_set)
  next
    case False
    have "map_of (Folder_add env f folder) u = map_of folder u" for folder
      using False by (simp add: Folder_add_def map_of_Map_set)
    from getFileInfo_inFolder_other [OF this] False show ?thesis
      by simp
  qed
qed

lemma stored_add_new:
  assumes "wellFormed env ws" and "wellFormed env ws1"
    and "\<And>u. getFileInfo env ws1 u = (if u = fileUri d \<and> c then Some d else getFileInfo env ws u)"
    and "getFileInfo env ws (fileUri d) = None"
    and "\<not> Q d"
  shows "set (filter Q (stored ws1 folderPath)) = set (filter Q (stored ws folderPath))"
proof -
  have "f \<in> set (stored ws1 folderPath) \<longleftrightarrow> f \<in> set (stored ws folderPath)" if "Q f" for f
  proof (cases "fileUri f = fileUri d")
    case True
    have e: "getFileInfo env ws1 (fileUri d) = (if c then Some d else None)"
      using assms(3) [of "fileUri d"] assms(4) by simp
    have l: "getFileInfo env ws1 (fileUri f) \<noteq> Some f"
    proof
      assume "getFileInfo env ws1 (fileUri f) = Some f"
      then have "getFileInfo env ws1 (fileUri d) = Some f" by (simp only: True)
      with e have "f = d" by (cases c) simp_all
      with that assms(5) show False by simp
    qed
    have r: "getFileInfo env ws (fileUri f) \<noteq> Some f"
      using True assms(4) by simp
    show ?thesis
      by (simp add: mem_stored [OF assms(1)] mem_stored [OF assms(2)] l r)
  next
    case False
    with assms(3) [of "fileUri f"] show ?thesis
      by (simp add: mem_stored [OF assms(1)] mem_stored [OF assms(2)])
  qed
  then show ?thesis by auto
qed

lemma insert_domain_cascade:
  assumes w: "wellFormed env ws"
    and new: "getFileInfo env ws uri = None"
    and dom: "isDomain (parseFile env uri language ver t)"
    and p: "p \<in> set (getProblemFiles env ws (parseFile env uri language ver t))"
  shows "getFileInfo env (snd (upsertFile env ws uri language ver t force)) (fileUri p)
           = Some (p\<lparr>fileStatus := Parsed\<rparr>)"
    and "q \<in> set (getPlanFiles env ws p) \<union> set (getHappeningsFiles env ws p) \<Longrightarrow>
         getFileInfo env (snd (upsertFile env ws uri language ver t force)) (fileUri q)
           = Some (q\<lparr>fileStatus := Parsed\<rparr>)"
proof -
  let ?d = "parseFile env uri language ver t"
  let ?P = "getFolderPath env uri"
  let ?ws1 = "inFolder ?P (Folder_add env ?d) (upsertFolder ws ?P)"
  let ?ws2 = "markProblemsAsDirty env ?ws1 ?d"
  have w1: "wellFormed env ?ws1"
    by (rule wellFormed_inFolder [OF wellFormed_upsertFolder [OF w]]) (simp add: wellFormedFolder_add)
  have g1: "getFileInfo env ?ws1 u
              = (if u = fileUri ?d \<and> uriScheme env (fileUri ?d) \<noteq> ''git'' then Some ?d
                 else getFileInfo env ws u)" for u
    using getFileInfo_add_new [of env ws ?d u] new by simp
  have new': "getFileInfo env ws (fileUri ?d) = None" using new by simp
  from dom have notProblem: "\<not> (isProblem ?d \<and> lowerCaseEquals (domainName ?d) (name ?d))"
    and notPlan: "\<not> (isPlan ?d \<and> lowerCaseEquals (problemName ?d) (name x)
                       \<and> lowerCaseEquals (domainName ?d) (domainName x))"
    and notHappenings: "\<not> (isHappenings ?d \<and> lowerCaseEquals (problemName ?d) (name x)
                       \<and> lowerCaseEquals (domainName ?d) (domainName x))" for x
    by (auto split: FileKind.splits)
  have problems: "set (getProblemFiles env ?ws1 ?d) = set (getProblemFiles env ws ?d)"
    unfolding getProblemFiles_stored
    by (rule stored_add_new
          [where Q = "\<lambda>p. isProblem p \<and> lowerCaseEquals (domainName p) (name ?d)" and d = ?d,
            OF w w1 g1 new' notProblem])
  have plans: "set (getPlanFiles env ?ws1 x) = set (getPlanFiles env ws x)" for x
    unfolding getPlanFiles_stored
    by (rule stored_add_new
          [where Q = "\<lambda>q. isPlan q \<and> lowerCaseEquals (problemName q) (name x)
                         \<and> lowerCaseEquals (domainName q) (domainName x)" and d = ?d,
            OF w w1 g1 new' notPlan])
  have happenings: "set (getHappeningsFiles env ?ws1 x) = set (getHappeningsFiles env ws x)" for x
    unfolding getHappeningsFiles_stored
    by (rule stored_add_new
          [where Q = "\<lambda>q. isHappenings q \<and> lowerCaseEquals (problemName q) (name x)
                         \<and> lowerCaseEquals (domainName q) (domainName x)" and d = ?d,
            OF w w1 g1 new' notHappenings])
  have t: "touches env (touched env ?ws1 (getProblemFiles env ?ws1 ?d)) ?ws1 ?ws2"
    by (rule touches_markProblemsAsDirty [OF w1])
  have result: "getFileInfo env (snd (upsertFile env ws uri language ver t force)) u
                  = getFileInfo env ?ws2 u" for u
    using new dom by (simp add: upsertFile_def Let_def insertFile_def)
  have is_stored: "getFileInfo env ?ws1 (fileUri f) = Some f"
    if "f \<in> set (stored ?ws1 folderPath)" for f folderPath
    using that by (simp add: mem_stored [OF w1])
  from p problems have p1: "p \<in> set (getProblemFiles env ?ws1 ?d)" by simp
  then have "fileUri p \<in> touched env ?ws1 (getProblemFiles env ?ws1 ?d)"
    by (simp add: touched_def)
  moreover from p1 have "getFileInfo env ?ws1 (fileUri p) = Some p"
    by (intro is_stored [of p ?P]) (simp add: getProblemFiles_stored)
  ultimately show "getFileInfo env (snd (upsertFile env ws uri language ver t force)) (fileUri p)
           = Some (p\<lparr>fileStatus := Parsed\<rparr>)"
    using t by (simp add: result touches_def asParsed_def)
  assume "q \<in> set (getPlanFiles env ws p) \<union> set (getHappeningsFiles env ws p)"
  with plans happenings
  have q1: "q \<in> set (getPlanFiles env ?ws1 p) \<union> set (getHappeningsFiles env ?ws1 p)"
    by simp
  with p1 have "fileUri q \<in> touched env ?ws1 (getProblemFiles env ?ws1 ?d)"
    by (auto simp add: touched_def dependents_def)
  moreover from q1 have "getFileInfo env ?ws1 (fileUri q) = Some q"
    by (auto simp add: getPlanFiles_stored getHappeningsFiles_stored
          intro: is_stored [of q "getFolderPath env (fileUri p)"])
  ultimately show "getFileInfo env (snd (upsertFile env ws uri language ver t force)) (fileUri q)
           = Some (q\<lparr>fileStatus := Parsed\<rparr>)"
    using t by (simp add: result touches_def asParsed_def)
qed

subsection \<open>Re-parsing a domain\<close>

text \<open>
  C1, as the spec states it, fails: \<open>reParseFile\<close> replaces the file it parses and emits
  UPDATED for it, and nothing else; and the invalidation that exists in the workspace
  sets the status Parsed, not Dirty. Here the domain of the folder is edited and the
  batch re-parse runs: the domain was Dirty and is Parsed at version 2 afterwards, and
  the problem that names it (up to case) and the problem's plan are Parsed, not Dirty.
\<close>

theorem reparsed_domain_leaves_problem_Parsed:
  "map_option fileStatus
     (getFileInfo demoEnv (run demoEnv (butlast reparseOps) newWorkspace) ''file:///w/domain.pddl'')
     = Some Dirty
   \<and> map_option (\<lambda>f. (fileVersion f, fileStatus f, isDomain f, name f))
       (getFileInfo demoEnv (run demoEnv reparseOps newWorkspace) ''file:///w/domain.pddl'')
     = Some (2, Parsed, True, Some ''d'')
   \<and> map_option (\<lambda>f. (fileStatus f, isProblem f, domainName f))
       (getFileInfo demoEnv (run demoEnv reparseOps newWorkspace) ''file:///w/problem.pddl'')
     = Some (Parsed, True, Some ''D'')
   \<and> lowerCaseEquals (Some ''D'') (Some ''d'')
   \<and> map_option fileStatus
       (getFileInfo demoEnv (run demoEnv reparseOps newWorkspace) ''file:///w/plan.plan'')
     = Some Parsed"
  by code_simp

text \<open>
  C1, amended. Re-parsing a file, by \<open>reParseFile\<close> or by the batch re-parse, changes no
  file but the re-parsed ones: there is no invalidation on re-parse. The invalidation
  runs when a domain file is inserted (the first upsert of its URI): every problem file
  stored in the same folder whose domain name equals the domain's name up to case is
  then stored with the status Parsed and everything else as it was (its text is kept),
  and so is every plan and happenings file of that folder whose problem name and domain
  name equal those of such a problem up to case.
\<close>

theorem invalidation_on_insert_not_on_reparse:
  "(u \<noteq> fileUri fileInfo \<longrightarrow>
      getFileInfo env (snd (reParseFile env ws fileInfo)) u = getFileInfo env ws u)
   \<and> ((\<forall>f \<in> set (getAllFilesIf ws (\<lambda>f. fileStatus f = Dirty)). fileUri f \<noteq> u) \<longrightarrow>
      getFileInfo env (parseAllDirty env ws) u = getFileInfo env ws u)
   \<and> (ws = run env ops newWorkspace
       \<and> getFileInfo env ws uri = None
       \<and> isDomain (parseFile env uri language ver t)
       \<and> getFileInfo env ws (fileUri p) = Some p
       \<and> getFolderPath env (fileUri p) = getFolderPath env uri
       \<and> isProblem p
       \<and> lowerCaseEquals (domainName p) (name (parseFile env uri language ver t)) \<longrightarrow>
      getFileInfo env (snd (upsertFile env ws uri language ver t force)) (fileUri p)
        = Some (p\<lparr>fileStatus := Parsed\<rparr>)
      \<and> (getFileInfo env ws (fileUri q) = Some q
          \<and> getFolderPath env (fileUri q) = getFolderPath env (fileUri p)
          \<and> (isPlan q \<or> isHappenings q)
          \<and> lowerCaseEquals (problemName q) (name p)
          \<and> lowerCaseEquals (domainName q) (domainName p) \<longrightarrow>
         getFileInfo env (snd (upsertFile env ws uri language ver t force)) (fileUri q)
           = Some (q\<lparr>fileStatus := Parsed\<rparr>)))"
proof (intro conjI impI)
  assume "u \<noteq> fileUri fileInfo"
  then show "getFileInfo env (snd (reParseFile env ws fileInfo)) u = getFileInfo env ws u"
    by (rule getFileInfo_reParseFile_other)
next
  assume "\<forall>f \<in> set (getAllFilesIf ws (\<lambda>f. fileStatus f = Dirty)). fileUri f \<noteq> u"
  then show "getFileInfo env (parseAllDirty env ws) u = getFileInfo env ws u"
    by (rule getFileInfo_parseAllDirty_other)
next
  assume a: "ws = run env ops newWorkspace
       \<and> getFileInfo env ws uri = None
       \<and> isDomain (parseFile env uri language ver t)
       \<and> getFileInfo env ws (fileUri p) = Some p
       \<and> getFolderPath env (fileUri p) = getFolderPath env uri
       \<and> isProblem p
       \<and> lowerCaseEquals (domainName p) (name (parseFile env uri language ver t))"
  then have r: "ws = run env ops newWorkspace"
    and new: "getFileInfo env ws uri = None"
    and dom: "isDomain (parseFile env uri language ver t)"
    and sp: "getFileInfo env ws (fileUri p) = Some p"
    and fp: "getFolderPath env (fileUri p) = getFolderPath env uri"
    and ip: "isProblem p"
    and lp: "lowerCaseEquals (domainName p) (name (parseFile env uri language ver t))"
    by blast+
  have w: "wellFormed env ws" unfolding r by (rule wellFormed_run [OF wellFormed_new])
  have p: "p \<in> set (getProblemFiles env ws (parseFile env uri language ver t))"
    using sp fp ip lp
    by (simp add: getProblemFiles_stored mem_stored [OF w]
          del: isProblem.simps domainName.simps name.simps)
  show "getFileInfo env (snd (upsertFile env ws uri language ver t force)) (fileUri p)
        = Some (p\<lparr>fileStatus := Parsed\<rparr>)"
    by (rule insert_domain_cascade(1) [OF w new dom p])
  assume b: "getFileInfo env ws (fileUri q) = Some q
          \<and> getFolderPath env (fileUri q) = getFolderPath env (fileUri p)
          \<and> (isPlan q \<or> isHappenings q)
          \<and> lowerCaseEquals (problemName q) (name p)
          \<and> lowerCaseEquals (domainName q) (domainName p)"
  then have "q \<in> set (getPlanFiles env ws p) \<union> set (getHappeningsFiles env ws p)"
    by (auto simp add: getPlanFiles_stored getHappeningsFiles_stored mem_stored [OF w]
          simp del: isPlan.simps isHappenings.simps problemName.simps domainName.simps name.simps)
  then show "getFileInfo env (snd (upsertFile env ws uri language ver t force)) (fileUri q)
           = Some (q\<lparr>fileStatus := Parsed\<rparr>)"
    by (rule insert_domain_cascade(2) [OF w new dom p])
qed

theorem invalidation_on_insert_not_on_reparse_witness:
  "getFileInfo demoEnv cascadeWorkspace ''file:///w/domain.pddl'' = None
   \<and> isDomain (parseFile demoEnv ''file:///w/domain.pddl'' PDDL 1 domainText)
   \<and> getFileInfo demoEnv cascadeWorkspace (fileUri dirtyProblem) = Some dirtyProblem
   \<and> getFileInfo demoEnv cascadeWorkspace (fileUri demoPlan) = Some demoPlan
   \<and> getFileInfo demoEnv
        (snd (upsertFile demoEnv cascadeWorkspace ''file:///w/domain.pddl'' PDDL 1 domainText False))
        (fileUri dirtyProblem)
       = Some (dirtyProblem\<lparr>fileStatus := Parsed\<rparr>)
   \<and> getFileInfo demoEnv
        (snd (upsertFile demoEnv cascadeWorkspace ''file:///w/domain.pddl'' PDDL 1 domainText False))
        (fileUri demoPlan)
       = Some (demoPlan\<lparr>fileStatus := Parsed\<rparr>)"
proof -
  let ?d = "parseFile demoEnv ''file:///w/domain.pddl'' PDDL 1 domainText"
  have a: "cascadeWorkspace =
     run demoEnv
       [UpsertFile ''file:///w/problem.pddl'' PDDL 1 problemText False,
        UpsertFile ''file:///w/plan.plan'' PLAN 1 planText False,
        UpsertFile ''file:///w/problem.pddl'' PDDL 2 problemText2 False]
       newWorkspace"
    by (rule cascadeWorkspace_def)
  have b: "getFileInfo demoEnv cascadeWorkspace ''file:///w/domain.pddl'' = None"
    by code_simp
  have c: "isDomain ?d"
    by code_simp
  have d: "getFileInfo demoEnv cascadeWorkspace (fileUri dirtyProblem) = Some dirtyProblem"
    by code_simp
  have e: "getFolderPath demoEnv (fileUri dirtyProblem)
             = getFolderPath demoEnv ''file:///w/domain.pddl''"
    by code_simp
  have f: "isProblem dirtyProblem"
    by code_simp
  have g: "lowerCaseEquals (domainName dirtyProblem) (name ?d)"
    by code_simp
  have h: "getFileInfo demoEnv cascadeWorkspace (fileUri demoPlan) = Some demoPlan"
    by code_simp
  have i: "getFolderPath demoEnv (fileUri demoPlan) = getFolderPath demoEnv (fileUri dirtyProblem)"
    by code_simp
  have j: "isPlan demoPlan"
    by code_simp
  have k: "lowerCaseEquals (problemName demoPlan) (name dirtyProblem)"
    by code_simp
  have l: "lowerCaseEquals (domainName demoPlan) (domainName dirtyProblem)"
    by code_simp
  show ?thesis
    using a b c d e f g h i j k l
      invalidation_on_insert_not_on_reparse [of _ _ demoEnv cascadeWorkspace _
        "''file:///w/domain.pddl''" PDDL 1 domainText dirtyProblem False demoPlan]
    by blast
qed

subsection \<open>Versions that never decrease\<close>

lemma fold_preserves_mem:
  assumes "\<And>x w. x \<in> set xs \<Longrightarrow> I w \<Longrightarrow> I (f x w)" and "I w"
  shows "I (fold f xs w)"
  using assms by (induction xs arbitrary: w) auto

lemma fileVersion_parseFile [simp]: "fileVersion (parseFile env uri language ver t) = ver"
  by (simp add: parseFile_def split: PddlLanguage.splits option.splits prod.splits)

lemma versionsKnown_mono: "versionsKnown S ws \<Longrightarrow> S \<subseteq> S' \<Longrightarrow> versionsKnown S' ws"
  by (auto simp add: versionsKnown_def versionsKnownIn_def)

lemma versionsKnown_new: "versionsKnown S newWorkspace"
  by (simp add: versionsKnown_def newWorkspace_def)

lemma versionsKnown_cong:
  "folders ws' = folders ws \<Longrightarrow> lastVersionUpdateEmitted ws' = lastVersionUpdateEmitted ws
     \<Longrightarrow> versionsKnown S ws' = versionsKnown S ws"
  by (simp add: versionsKnown_def)

lemma versionsKnown_scheduleParsing [simp]:
  "versionsKnown S (scheduleParsing ws) = versionsKnown S ws"
  by (rule versionsKnown_cong) (simp_all add: scheduleParsing_def)

lemma versionsKnown_parsingTimeout [simp]:
  "versionsKnown S (ws\<lparr>parsingTimeout := b\<rparr>) = versionsKnown S ws"
  by (rule versionsKnown_cong) simp_all

lemma versionsKnown_associateProblemToDomain [simp]:
  "versionsKnown S (associateProblemToDomain ws p d) = versionsKnown S ws"
  by (rule versionsKnown_cong) (simp_all add: associateProblemToDomain_def)

lemma versionsKnown_associatePlanToProblem [simp]:
  "versionsKnown S (associatePlanToProblem ws u p) = versionsKnown S ws"
  by (rule versionsKnown_cong) (simp_all add: associatePlanToProblem_def)

lemma versionsKnown_stored:
  assumes "versionsKnown S ws" and "f \<in> set (stored ws folderPath)"
  shows "(fileUri f, fileVersion f) \<in> S"
proof (cases "Map_get (folders ws) folderPath")
  case None
  with assms(2) show ?thesis by (simp add: stored_def)
next
  case (Some folder)
  then have "(folderPath, folder) \<in> set (folders ws)"
    by (simp add: Map_get_def map_of_SomeD)
  with assms(1) have "versionsKnownIn S folder"
    by (fastforce simp add: versionsKnown_def)
  with assms(2) Some show ?thesis
    by (fastforce simp add: stored_def Map_values_def versionsKnownIn_def)
qed

lemma versionsKnown_getFileInfo:
  assumes "versionsKnown S ws" and "getFileInfo env ws u = Some f"
  shows "(fileUri f, fileVersion f) \<in> S"
proof -
  from assms(2) obtain folder
    where a: "Map_get (folders ws) (getFolderPath env u) = Some folder"
      and b: "map_of folder u = Some f"
    by (auto simp add: getFileInfo_def Folder_get_def Map_get_def split: option.splits)
  from b have "(u, f) \<in> set folder" by (rule map_of_SomeD)
  with a have "f \<in> set (stored ws (getFolderPath env u))"
    by (force simp add: stored_def Map_values_def)
  with assms(1) show ?thesis by (rule versionsKnown_stored)
qed

lemma versionsKnown_getAllFilesIf:
  assumes "versionsKnown S ws" and "f \<in> set (getAllFilesIf ws predicate)"
  shows "(fileUri f, fileVersion f) \<in> S"
  using assms
  by (fastforce simp add: getAllFilesIf_def Map_values_def versionsKnown_def versionsKnownIn_def)

lemma versionsKnown_emitIfNew:
  assumes "versionsKnown S ws"
    and "symbol = UPDATED \<longrightarrow> (fileUri f, fileVersion f) \<in> S"
  shows "versionsKnown S (emitIfNew ws symbol f)"
proof -
  have "set (Map_set (fileUri f) (fileVersion f) (lastVersionUpdateEmitted ws)) \<subseteq> S"
    if "(fileUri f, fileVersion f) \<in> S"
  proof
    fix e
    assume "e \<in> set (Map_set (fileUri f) (fileVersion f) (lastVersionUpdateEmitted ws))"
    then have "(fst e, snd e) \<in> set (Map_set (fileUri f) (fileVersion f)
                                        (lastVersionUpdateEmitted ws))"
      by simp
    from in_Map_set [OF this] that assms(1) have "(fst e, snd e) \<in> S"
      by (auto simp add: versionsKnown_def)
    then show "e \<in> S" by simp
  qed
  with assms show ?thesis
    by (auto simp add: emitIfNew_def emit_def versionsKnown_def split: option.splits)
qed

lemma versionsKnown_upsertFolder:
  assumes "versionsKnown S ws"
  shows "versionsKnown S (upsertFolder ws folderPath)"
proof -
  have "versionsKnownIn S (snd e)" if "e \<in> set (Map_set folderPath [] (folders ws))" for e
  proof -
    from that have "(fst e, snd e) \<in> set (Map_set folderPath [] (folders ws))" by simp
    from in_Map_set [OF this] assms show ?thesis
      by (fastforce simp add: versionsKnown_def versionsKnownIn_def)
  qed
  with assms show ?thesis
    by (simp add: upsertFolder_def versionsKnown_def)
qed

lemma versionsKnown_inFolder:
  assumes "versionsKnown S ws"
    and "\<And>folder. versionsKnownIn S folder \<Longrightarrow> versionsKnownIn S (g folder)"
  shows "versionsKnown S (inFolder folderPath g ws)"
proof -
  have "versionsKnownIn S (snd e)" if "e \<in> set (Map_modify folderPath g (folders ws))" for e
  proof -
    from that have "(fst e, snd e) \<in> set (Map_modify folderPath g (folders ws))" by simp
    from in_Map_modify [OF this]
    consider "(fst e, snd e) \<in> set (folders ws)"
      | b0 where "map_of (folders ws) folderPath = Some b0" "snd e = g b0"
      by blast
    then show ?thesis
    proof cases
      case 1
      with assms(1) show ?thesis by (fastforce simp add: versionsKnown_def)
    next
      case 2
      from 2(1) have "(folderPath, b0) \<in> set (folders ws)" by (rule map_of_SomeD)
      with assms(1) have "versionsKnownIn S b0" by (fastforce simp add: versionsKnown_def)
      with 2(2) assms(2) show ?thesis by simp
    qed
  qed
  with assms(1) show ?thesis
    by (simp add: versionsKnown_def inFolder_def)
qed

lemma versionsKnownIn_add:
  assumes "versionsKnownIn S folder" and "(fileUri f, fileVersion f) \<in> S"
  shows "versionsKnownIn S (Folder_add env f folder)"
proof -
  have "(fileUri (snd e), fileVersion (snd e)) \<in> S"
    if "e \<in> set (Map_set (fileUri f) f folder)" for e
  proof -
    from that have "(fst e, snd e) \<in> set (Map_set (fileUri f) f folder)" by simp
    from in_Map_set [OF this] assms show ?thesis
      by (fastforce simp add: versionsKnownIn_def)
  qed
  with assms(1) show ?thesis
    by (simp add: Folder_add_def versionsKnownIn_def)
qed

lemma versionsKnownIn_remove:
  "versionsKnownIn S folder \<Longrightarrow> versionsKnownIn S (snd (Folder_remove f folder))"
  by (simp add: versionsKnownIn_def Folder_remove_def Map_delete_def)

lemma versionsKnownIn_modify:
  assumes "versionsKnownIn S folder"
    and "\<And>f0. (fileUri f0, fileVersion f0) \<in> S \<Longrightarrow> map_of folder uri = Some f0
           \<Longrightarrow> (fileUri (h f0), fileVersion (h f0)) \<in> S"
  shows "versionsKnownIn S (Map_modify uri h folder)"
proof -
  have "(fileUri (snd e), fileVersion (snd e)) \<in> S" if "e \<in> set (Map_modify uri h folder)" for e
  proof -
    from that have "(fst e, snd e) \<in> set (Map_modify uri h folder)" by simp
    from in_Map_modify [OF this]
    consider "(fst e, snd e) \<in> set folder"
      | b0 where "map_of folder uri = Some b0" "snd e = h b0"
      by blast
    then show ?thesis
    proof cases
      case 1
      with assms(1) show ?thesis by (fastforce simp add: versionsKnownIn_def)
    next
      case 2
      from 2(1) have "(uri, b0) \<in> set folder" by (rule map_of_SomeD)
      with assms(1) have "(fileUri b0, fileVersion b0) \<in> S"
        by (fastforce simp add: versionsKnownIn_def)
      from assms(2) [OF this 2(1)] 2(2) show ?thesis by simp
    qed
  qed
  then show ?thesis by (simp add: versionsKnownIn_def)
qed

lemma versionsKnown_invalidateDiagnostics:
  assumes "versionsKnown S ws" and "(fileUri f, fileVersion f) \<in> S"
  shows "versionsKnown S (invalidateDiagnostics env ws f)"
proof -
  have "versionsKnown S (inFolder (getFolderPath env (fileUri f))
          (Map_modify (fileUri f) (\<lambda>f. f\<lparr>fileStatus := Parsed\<rparr>)) ws)"
    by (rule versionsKnown_inFolder [OF assms(1)]) (simp add: versionsKnownIn_modify)
  then show ?thesis
    unfolding invalidateDiagnostics_def Let_def
    by (rule versionsKnown_emitIfNew) (simp add: assms(2))
qed

lemma versionsKnown_fold_invalidateDiagnostics:
  assumes "versionsKnown S ws" and "\<forall>f \<in> set fs. (fileUri f, fileVersion f) \<in> S"
  shows "versionsKnown S (fold (\<lambda>f w. invalidateDiagnostics env w f) fs ws)"
  by (rule fold_preserves_mem [where I = "versionsKnown S"])
     (simp_all add: assms versionsKnown_invalidateDiagnostics)

lemma versionsKnown_markPlansAsDirty:
  assumes "versionsKnown S ws"
  shows "versionsKnown S (markPlansAsDirty env ws p)"
proof -
  let ?ws1 = "fold (\<lambda>f w. invalidateDiagnostics env w f) (getPlanFiles env ws p) ws"
  have "\<forall>f \<in> set (getPlanFiles env ws p). (fileUri f, fileVersion f) \<in> S"
    using versionsKnown_stored [OF assms] by (auto simp add: getPlanFiles_stored)
  then have k1: "versionsKnown S ?ws1"
    by (rule versionsKnown_fold_invalidateDiagnostics [OF assms])
  have "\<forall>f \<in> set (getHappeningsFiles env ?ws1 p). (fileUri f, fileVersion f) \<in> S"
    using versionsKnown_stored [OF k1] by (auto simp add: getHappeningsFiles_stored)
  then show ?thesis
    unfolding markPlansAsDirty_def Let_def
    by (rule versionsKnown_fold_invalidateDiagnostics [OF k1])
qed

lemma versionsKnown_markProblemsAsDirty:
  assumes "versionsKnown S ws"
  shows "versionsKnown S (markProblemsAsDirty env ws d)"
proof -
  have "\<forall>f \<in> set (getProblemFiles env ws d). (fileUri f, fileVersion f) \<in> S"
    using versionsKnown_stored [OF assms] by (auto simp add: getProblemFiles_stored)
  then show ?thesis
    unfolding markProblemsAsDirty_def
    by (intro fold_preserves_mem [where I = "versionsKnown S"] assms
          versionsKnown_markPlansAsDirty versionsKnown_invalidateDiagnostics) auto
qed

lemma versionsKnown_insertFile:
  assumes "versionsKnown S ws" and "(uri, ver) \<in> S"
  shows "versionsKnown S (snd (insertFile env ws folderPath uri language ver t))"
proof -
  let ?f = "parseFile env uri language ver t"
  have k1: "versionsKnown S (inFolder folderPath (Folder_add env ?f) ws)"
    by (rule versionsKnown_inFolder [OF assms(1)]) (simp add: versionsKnownIn_add assms(2))
  have k2: "versionsKnown S
              (if isDomain ?f
               then markProblemsAsDirty env (inFolder folderPath (Folder_add env ?f) ws) ?f
               else if isProblem ?f
               then markPlansAsDirty env (inFolder folderPath (Folder_add env ?f) ws) ?f
               else inFolder folderPath (Folder_add env ?f) ws)"
    using k1 by (simp add: versionsKnown_markProblemsAsDirty versionsKnown_markPlansAsDirty
                   del: isDomain.simps isProblem.simps)
  show ?thesis
    unfolding insertFile_def Let_def snd_conv
    by (intro versionsKnown_emitIfNew k2) (simp_all add: assms(2))
qed

lemma versionsKnown_upsertFile:
  assumes "versionsKnown S ws" and "wellFormed env ws" and "(uri, ver) \<in> S"
  shows "versionsKnown S (snd (upsertFile env ws uri language ver t force))
         \<and> (fileUri (fst (upsertFile env ws uri language ver t force)),
             fileVersion (fst (upsertFile env ws uri language ver t force))) \<in> S"
proof -
  let ?ws1 = "upsertFolder ws (getFolderPath env uri)"
  have k1: "versionsKnown S ?ws1" by (rule versionsKnown_upsertFolder [OF assms(1)])
  have w1: "wellFormed env ?ws1" by (rule wellFormed_upsertFolder [OF assms(2)])
  show ?thesis
  proof (cases "getFileInfo env ?ws1 uri")
    case None
    with versionsKnown_insertFile [OF k1 assms(3), of env "getFolderPath env uri" language t]
      assms(3)
    show ?thesis
      by (simp add: upsertFile_def Let_def) (simp add: insertFile_def Let_def)
  next
    case (Some fileInfo)
    obtain fileInfo' changed where u: "FileInfo_update fileInfo ver t force = (fileInfo', changed)"
      by (cases "FileInfo_update fileInfo ver t force")
    from wellFormed_getFileInfo [OF w1 Some] have own: "fileUri fileInfo = uri" by simp
    from versionsKnown_getFileInfo [OF k1 Some] have old: "(fileUri fileInfo, fileVersion fileInfo) \<in> S" .
    from u own old assms(3) have new: "(fileUri fileInfo', fileVersion fileInfo') \<in> S"
      by (auto simp add: FileInfo_update_def Let_def split: if_splits)
    have "versionsKnown S (inFolder (getFolderPath env uri) (Map_modify uri (\<lambda>_. fileInfo')) ?ws1)"
      by (rule versionsKnown_inFolder [OF k1]) (simp add: versionsKnownIn_modify new)
    with Some u new show ?thesis
      by (simp add: upsertFile_def Let_def)
  qed
qed

lemma versionsKnown_reParseFile:
  assumes "versionsKnown S ws" and "(fileUri fileInfo, fileVersion fileInfo) \<in> S"
  shows "versionsKnown S (snd (reParseFile env ws fileInfo))"
proof -
  let ?P = "getFolderPath env (fileUri fileInfo)"
  let ?f = "parseFile env (fileUri fileInfo) (getLanguage fileInfo)
              (fileVersion fileInfo) (fileText fileInfo)"
  have k1: "versionsKnown S (upsertFolder ws ?P)" by (rule versionsKnown_upsertFolder [OF assms(1)])
  have k2: "versionsKnown S (inFolder ?P (\<lambda>folder. snd (Folder_remove fileInfo folder))
                              (upsertFolder ws ?P))"
    by (rule versionsKnown_inFolder [OF k1]) (rule versionsKnownIn_remove)
  have k3: "versionsKnown S (inFolder ?P (Folder_add env ?f)
              (inFolder ?P (\<lambda>folder. snd (Folder_remove fileInfo folder)) (upsertFolder ws ?P)))"
    by (rule versionsKnown_inFolder [OF k2]) (simp add: versionsKnownIn_add assms(2))
  show ?thesis
    unfolding reParseFile_def Let_def snd_conv
    by (rule versionsKnown_emitIfNew [OF k3]) (simp add: assms(2))
qed

lemma versionsKnown_upsertAndParseFile:
  assumes "versionsKnown S ws" and "wellFormed env ws" and "(uri, ver) \<in> S"
  shows "versionsKnown S (snd (upsertAndParseFile env ws uri language ver t))"
proof -
  obtain fileInfo ws1 where u: "upsertFile env ws uri language ver t False = (fileInfo, ws1)"
    by (cases "upsertFile env ws uri language ver t False")
  with versionsKnown_upsertFile [OF assms, of language t False]
  have "versionsKnown S ws1" and "(fileUri fileInfo, fileVersion fileInfo) \<in> S"
    by simp_all
  then show ?thesis
    by (simp add: upsertAndParseFile_def u versionsKnown_reParseFile)
qed

lemma versionsKnown_parseAllDirty:
  assumes "versionsKnown S ws"
  shows "versionsKnown S (parseAllDirty env ws)"
  unfolding parseAllDirty_def Let_def
  by (rule fold_preserves_mem [where I = "versionsKnown S"])
     (auto simp add: assms intro: versionsKnown_reParseFile
        versionsKnown_getAllFilesIf [OF assms])

lemma versionsKnown_removeFile:
  assumes "versionsKnown S ws"
  shows "versionsKnown S (snd (removeFile env ws uri removeAllReferences))"
proof -
  have "versionsKnown S (inFolder folderPath (\<lambda>f. snd (Folder_remove documentInfo f))
                 (emitIfNew ws REMOVING documentInfo))" for folderPath documentInfo
    by (rule versionsKnown_inFolder)
       (simp_all add: assms versionsKnown_emitIfNew versionsKnownIn_remove)
  with assms show ?thesis
    by (simp add: removeFile_def Let_def split: option.splits)
qed

lemma versionsKnown_step:
  assumes "versionsKnown S ws" and "wellFormed env ws" and "set (broughtIn operation) \<subseteq> S"
  shows "versionsKnown S (step env operation ws)"
proof (cases operation)
  case (UpsertFile uri language ver t force)
  with assms show ?thesis by (simp add: versionsKnown_upsertFile)
next
  case (UpsertAndParseFile uri language ver t)
  with assms show ?thesis by (simp add: versionsKnown_upsertAndParseFile)
next
  case (ReParseFile fileInfo)
  with assms show ?thesis by (simp add: versionsKnown_reParseFile)
next
  case (InvalidateDiagnostics uri)
  with assms show ?thesis
    by (auto simp add: versionsKnown_invalidateDiagnostics versionsKnown_getFileInfo
          split: option.splits)
qed (simp_all add: assms versionsKnown_parseAllDirty versionsKnown_removeFile
       versionsKnown_markProblemsAsDirty versionsKnown_markPlansAsDirty)

lemma versionsKnown_run:
  "versionsKnown S ws \<Longrightarrow> wellFormed env ws \<Longrightarrow>
     versionsKnown (S \<union> set (concat (map broughtIn ops))) (run env ops ws)"
proof (induction ops arbitrary: S ws)
  case Nil
  then show ?case by (simp add: run_def)
next
  case (Cons operation ops)
  have "versionsKnown (S \<union> set (broughtIn operation)) ws"
    by (rule versionsKnown_mono [OF Cons.prems(1)]) simp
  then have k: "versionsKnown (S \<union> set (broughtIn operation)) (step env operation ws)"
    by (rule versionsKnown_step [OF _ Cons.prems(2)]) simp
  have w: "wellFormed env (step env operation ws)"
    by (rule wellFormed_step [OF Cons.prems(2)])
  from Cons.IH [OF k w] show ?case
    by (simp add: run_def Un_assoc)
qed

lemma emitIfNew_next_version:
  assumes "fileUri g = fileUri f" and "fileVersion g = fileVersion f + 1"
  shows "(emitted (emitIfNew (emitIfNew ws UPDATED f) UPDATED g)
            = emitted (emitIfNew ws UPDATED f) @ [(UPDATED, g)])
         \<longleftrightarrow> (\<forall>l. Map_get (lastVersionUpdateEmitted ws) (fileUri f) = Some l
                 \<longrightarrow> l \<le> fileVersion f)"
  using assms
  by (cases "Map_get (lastVersionUpdateEmitted ws) (fileUri f)")
     (auto simp add: emitIfNew_def emit_def Map_get_def map_of_Map_set)

text \<open>
  C4. For every sequence of workspace operations, the UPDATED events emitted have
  distinct (URI, version) pairs. When no operation of the sequence has brought in a
  version of the file's URI greater than N (the caller's versions do not decrease), an
  UPDATED for version N + 1 that follows the UPDATED attempt for version N is emitted,
  whether the UPDATED of version N was itself emitted or suppressed.
\<close>

theorem UPDATED_once_per_version:
  "distinct (updatedPairs (run env ops newWorkspace))
   \<and> ((\<forall>p \<in> set (concat (map broughtIn ops)). fst p = fileUri f \<longrightarrow> snd p \<le> fileVersion f)
        \<and> fileUri g = fileUri f \<and> fileVersion g = fileVersion f + 1 \<longrightarrow>
        emitted (emitIfNew (emitIfNew (run env ops newWorkspace) UPDATED f) UPDATED g)
          = emitted (emitIfNew (run env ops newWorkspace) UPDATED f) @ [(UPDATED, g)])"
proof (intro conjI impI)
  show "distinct (updatedPairs (run env ops newWorkspace))"
    using emitInv_run [OF emitInv_new, of env ops] by (simp add: emitInv_def)
next
  let ?ws = "run env ops newWorkspace"
  assume a: "(\<forall>p \<in> set (concat (map broughtIn ops)). fst p = fileUri f \<longrightarrow> snd p \<le> fileVersion f)
        \<and> fileUri g = fileUri f \<and> fileVersion g = fileVersion f + 1"
  have "versionsKnown ({} \<union> set (concat (map broughtIn ops))) ?ws"
    by (rule versionsKnown_run [OF versionsKnown_new wellFormed_new])
  then have known: "set (lastVersionUpdateEmitted ?ws) \<subseteq> set (concat (map broughtIn ops))"
    by (simp add: versionsKnown_def)
  have "l \<le> fileVersion f" if "Map_get (lastVersionUpdateEmitted ?ws) (fileUri f) = Some l" for l
  proof -
    from that have "(fileUri f, l) \<in> set (lastVersionUpdateEmitted ?ws)"
      by (simp add: Map_get_def map_of_SomeD)
    with known have "(fileUri f, l) \<in> set (concat (map broughtIn ops))" by blast
    with a show ?thesis by fastforce
  qed
  with a emitIfNew_next_version [of g f ?ws]
  show "emitted (emitIfNew (emitIfNew ?ws UPDATED f) UPDATED g)
          = emitted (emitIfNew ?ws UPDATED f) @ [(UPDATED, g)]"
    by blast
qed

theorem UPDATED_once_per_version_witness:
  "updatedPairs (run demoEnv editOps newWorkspace)
     = [(''file:///w/domain.pddl'', 5), (''file:///w/domain.pddl'', 6)]
   \<and> distinct (updatedPairs (run demoEnv editOps newWorkspace))
   \<and> emitIfNew (run demoEnv editOps newWorkspace) UPDATED (domainAt 6)
       = run demoEnv editOps newWorkspace
   \<and> emitted (emitIfNew (emitIfNew (run demoEnv editOps newWorkspace) UPDATED (domainAt 6))
                UPDATED (domainAt 7))
       = emitted (emitIfNew (run demoEnv editOps newWorkspace) UPDATED (domainAt 6))
           @ [(UPDATED, domainAt 7)]"
proof -
  have a: "updatedPairs (run demoEnv editOps newWorkspace)
     = [(''file:///w/domain.pddl'', 5), (''file:///w/domain.pddl'', 6)]"
    by code_simp
  have b: "emitIfNew (run demoEnv editOps newWorkspace) UPDATED (domainAt 6)
       = run demoEnv editOps newWorkspace"
    by code_simp
  have c: "list_all (\<lambda>p. fst p = fileUri (domainAt 6) \<longrightarrow> snd p \<le> fileVersion (domainAt 6))
             (concat (map broughtIn editOps))"
    by code_simp
  have d: "fileUri (domainAt 7) = fileUri (domainAt 6)"
    by (simp add: domainAt_def)
  have e: "fileVersion (domainAt 7) = fileVersion (domainAt 6) + 1"
    by (simp add: domainAt_def)
  from c have c': "\<forall>p \<in> set (concat (map broughtIn editOps)).
                     fst p = fileUri (domainAt 6) \<longrightarrow> snd p \<le> fileVersion (domainAt 6)"
    by (simp add: list_all_iff)
  show ?thesis
    using a b c' d e UPDATED_once_per_version [of demoEnv editOps "domainAt 6" "domainAt 7"]
    by simp
qed

text \<open>
  The hypothesis on the versions cannot be dropped. When the caller's versions go back,
  as for a document opened at version 10 and closed, opened again at version 5 and closed,
  and opened a third time at version 6, the UPDATED of version 5 is suppressed as stale
  and so is the UPDATED of version 6: only INSERTED is emitted for them.
\<close>

lemma UPDATED_after_stale_version_is_suppressed:
  "map (\<lambda>e. (fst e, fileUri (snd e), fileVersion (snd e)))
     (emitted (run demoEnv reopenOps newWorkspace))
   = [(UPDATED, ''file:///w/domain.pddl'', 10), (INSERTED, ''file:///w/domain.pddl'', 10),
      (REMOVING, ''file:///w/domain.pddl'', 10),
      (INSERTED, ''file:///w/domain.pddl'', 5), (REMOVING, ''file:///w/domain.pddl'', 5),
      (INSERTED, ''file:///w/domain.pddl'', 6)]"
  by code_simp

section \<open>Properties of the problem parser\<close>

subsection \<open>Unsupported initial values\<close>

lemma supplyDemandPattern_unsupported:
  assumes "s \<in> {''(forall'', ''(assign'', ''(increase'', ''(decrease''}"
  shows "\<not> supplyDemandPattern s"
proof -
  have "\<not> supplyDemandPattern ''(forall''" by code_simp
  moreover have "\<not> supplyDemandPattern ''(assign''" by code_simp
  moreover have "\<not> supplyDemandPattern ''(increase''" by code_simp
  moreover have "\<not> supplyDemandPattern ''(decrease''" by code_simp
  ultimately show ?thesis using assms by auto
qed

lemma set_map_filter: "set (List.map_filter f xs) = {y. \<exists>x \<in> set xs. f x = Some y}"
  by (induction xs) (auto simp add: List.map_filter_simps split: option.splits)

text \<open>
  C8. For every bracket whose head token is \<open>(forall\<close>, \<open>(assign\<close>, \<open>(increase\<close> or
  \<open>(decrease\<close>, \<open>parseVariableValue\<close> returns the unsupported value that carries the text of
  the bracket, \<open>parseInit\<close> makes it a fact at time 0, and when the bracket is a bracket
  child of the \<open>:init\<close> node that fact is in the list of facts of \<open>parseInitSection\<close>.
\<close>

theorem unsupported_init_is_kept:
  assumes "tokenText (getToken node) \<in> {''(forall'', ''(assign'', ''(increase'', ''(decrease''}"
  shows "parseVariableValue node = Some (UnsupportedVariableValue (getText node))
     \<and> parseInit node
         = Some (TimedVariableValue (Num 0) (UnsupportedVariableValue (getText node)))
     \<and> (node \<in> set (getChildren initNode) \<and> isOpenBracket (getToken node) \<longrightarrow>
          TimedVariableValue (Num 0) (UnsupportedVariableValue (getText node))
            \<in> set (fst (parseInitSection initNode)))"
proof -
  from assms have v: "parseVariableValue node = Some (UnsupportedVariableValue (getText node))"
    by (subst parseVariableValue.simps) auto
  from assms have "tokenText (getToken node) \<noteq> ''(at''" by auto
  with v have i: "parseInit node
         = Some (TimedVariableValue (Num 0) (UnsupportedVariableValue (getText node)))"
    by (simp add: parseInit_def TimedVariableValue_from_def)
  from i supplyDemandPattern_unsupported [OF assms]
  have "node \<in> set (getChildren initNode) \<and> isOpenBracket (getToken node) \<longrightarrow>
          TimedVariableValue (Num 0) (UnsupportedVariableValue (getText node))
            \<in> set (fst (parseInitSection initNode))"
    by (auto simp add: parseInitSection_def Let_def set_map_filter)
  with v i show ?thesis by blast
qed

theorem unsupported_init_is_kept_witness:
  "tokenText (getToken forallNode) = ''(forall''
   \<and> getText forallNode = ''(forall (?x) (p ?x))''
   \<and> forallNode \<in> set (getChildren initNodeWithForall)
   \<and> isOpenBracket (getToken forallNode)
   \<and> parseVariableValue forallNode = Some (UnsupportedVariableValue ''(forall (?x) (p ?x))'')
   \<and> TimedVariableValue (Num 0) (UnsupportedVariableValue ''(forall (?x) (p ?x))'')
       \<in> set (fst (parseInitSection initNodeWithForall))"
proof -
  have a: "tokenText (getToken forallNode) = ''(forall''"
    by code_simp
  have b: "getText forallNode = ''(forall (?x) (p ?x))''"
    by code_simp
  have c: "forallNode \<in> set (getChildren initNodeWithForall)"
    by code_simp
  have d: "isOpenBracket (getToken forallNode)"
    by code_simp
  from a have e: "tokenText (getToken forallNode)
                   \<in> {''(forall'', ''(assign'', ''(increase'', ''(decrease''}"
    by simp
  show ?thesis
    using a b c d unsupported_init_is_kept [OF e, of initNodeWithForall]
    by simp
qed

subsection \<open>An \<open>(at\<close> bracket without a time\<close>

text \<open>
  C2, as the spec states it, fails on its own example. For
  \<open>(define (problem bad) (:domain d1) (:init (at (foo))))\<close> the \<open>(at\<close> bracket has one
  token after \<open>(at\<close>, so \<open>parseInit\<close> falls back to \<open>parseVariableValue\<close> on the whole
  bracket; that returns nothing for a bracket with a nested bracket, and the problem info
  has no initial fact at all.
\<close>

theorem at_foo_gives_no_fact:
  "parse None ''file:///w/bad.pddl'' 1 badProblem (getTree badProblem)
     = Inr (Some \<lparr>problem_fileUri = ''file:///w/bad.pddl'', problem_version = 1,
                  problem_name = ''bad'', problem_domainName = ''d1'',
                  problem_text = badProblem, problem_objects = [], problem_inits = [],
                  problem_supplyDemands = [], problem_parsingProblems = []\<rparr>)
   \<and> (case getDefineNodeOrThrow (getTree badProblem) of
         Inl e \<Rightarrow> None
       | Inr defineNode \<Rightarrow>
           map_option (\<lambda>initNode. filter (\<lambda>c. isOpenBracket (getToken c)) (getChildren initNode))
             (getFirstOpenBracket defineNode '':init''))
       = Some [atFooNode]
   \<and> parseFloat ''(foo)'' = NaN
   \<and> parseInit atFooNode = None"
  by code_simp

text \<open>
  C2, amended. For an \<open>(at\<close> bracket with fewer than two tokens after \<open>(at\<close>, or whose
  first token is not numeric, \<open>parseInit\<close> returns a value (it cannot throw) and falls
  back to the whole bracket: when the bracket has no nested bracket the result is the
  fact named by the text of the bracket, \<open>at\<close> included, with the value true at time 0;
  when it has a nested bracket there is no fact.
\<close>

theorem at_bracket_without_time:
  assumes "tokenText (getToken bracketNode) = ''(at''"
    and "length (filter (\<lambda>n. isNotType n Comment) (getNonWhitespaceChildren bracketNode)) \<le> 1
         \<or> parseFloat (getText (filter (\<lambda>n. isNotType n Comment)
                                   (getNonWhitespaceChildren bracketNode) ! 0)) = NaN"
  shows "parseInit bracketNode
           = (if list_ex (\<lambda>child. isOpenBracket (getToken child)) (getChildren bracketNode)
              then None
              else Some (TimedVariableValue (Num 0)
                           (VariableValue (''at'' @ getNestedText bracketNode)
                              (BooleanValue True))))"
proof -
  from assms(1)
  have v: "parseVariableValue bracketNode
             = (if list_ex (\<lambda>child. isOpenBracket (getToken child)) (getChildren bracketNode)
                then None
                else Some (VariableValue (''at'' @ getNestedText bracketNode) (BooleanValue True)))"
    by (subst parseVariableValue.simps) simp
  from assms show ?thesis
    by (auto simp add: parseInit_def Let_def v TimedVariableValue_from_def)
qed

theorem at_bracket_without_time_witness:
  "tokenText (getToken atKitchenNode) = ''(at''
   \<and> parseFloat (getText (filter (\<lambda>n. isNotType n Comment)
                            (getNonWhitespaceChildren atKitchenNode) ! 0)) = NaN
   \<and> \<not> list_ex (\<lambda>child. isOpenBracket (getToken child)) (getChildren atKitchenNode)
   \<and> getNestedText atKitchenNode = '' kitchen robot''
   \<and> parseInit atKitchenNode
       = Some (TimedVariableValue (Num 0) (VariableValue ''at kitchen robot'' (BooleanValue True)))"
proof -
  have a: "tokenText (getToken atKitchenNode) = ''(at''"
    by code_simp
  have b: "parseFloat (getText (filter (\<lambda>n. isNotType n Comment)
                            (getNonWhitespaceChildren atKitchenNode) ! 0)) = NaN"
    by code_simp
  have c: "\<not> list_ex (\<lambda>child. isOpenBracket (getToken child)) (getChildren atKitchenNode)"
    by code_simp
  have d: "getNestedText atKitchenNode = '' kitchen robot''"
    by code_simp
  show ?thesis
    using a b c d at_bracket_without_time [OF a disjI2 [OF b]]
    by simp
qed

subsection \<open>The example problem\<close>

text \<open>
  C3. Parsing \<open>(define (problem p1) (:domain d1) (:objects a b - loc) (:init (at 5 (visited a))))\<close>,
  with the syntax tree of that text, gives a problem info with the name \<open>p1\<close>, the domain
  name \<open>d1\<close>, the objects \<open>a\<close> and \<open>b\<close> of the type \<open>loc\<close>, and exactly one initial fact: the
  variable \<open>visited a\<close> with the value true at time 5.
\<close>

theorem example_problem_parses:
  "parse None uri ver exampleProblem (getTree exampleProblem)
     = Inr (Some \<lparr>problem_fileUri = uri, problem_version = ver,
                  problem_name = ''p1'', problem_domainName = ''d1'',
                  problem_text = exampleProblem,
                  problem_objects = [(''loc'', [''a'', ''b''])],
                  problem_inits =
                    [TimedVariableValue (Num 5) (VariableValue ''visited a'' (BooleanValue True))],
                  problem_supplyDemands = [], problem_parsingProblems = []\<rparr>)"
  by code_simp

theorem example_problem_parses_witness:
  "map_option (\<lambda>p. (problem_name p, problem_domainName p, problem_objects p, problem_inits p))
     (case parse None ''file:///w/p1.pddl'' 1 exampleProblem (getTree exampleProblem) of
        Inl e \<Rightarrow> None | Inr r \<Rightarrow> r)
   = Some (''p1'', ''d1'', [(''loc'', [''a'', ''b''])],
           [TimedVariableValue (Num 5) (VariableValue ''visited a'' (BooleanValue True))])"
  using example_problem_parses [of "''file:///w/p1.pddl''" 1]
  by simp

end
